theory Spec2Isabelle
  imports Complex_Main
begin

section \<open>Strings and characters\<close>

text \<open>
  Shader source, diagnostic lines and log messages are JavaScript strings. They are
  modelled as \<^typ>\<open>string\<close>: one \<^typ>\<open>char\<close> per code unit, which covers the code
  units \<open>0x00 .. 0xFF\<close>. The character classes below are the ones the regular
  expressions of \<^verbatim>\<open>script.js\<close> use, restricted to that range.
\<close>

definition is_digit :: "char \<Rightarrow> bool" where
  \<comment> \<open>\<^verbatim>\<open>[0-9]\<close>, \<^verbatim>\<open>\d\<close>\<close>
  "is_digit c = (let n = (of_char c :: nat) in 48 \<le> n \<and> n \<le> 57)"

definition is_ident_start :: "char \<Rightarrow> bool" where
  \<comment> \<open>\<^verbatim>\<open>[a-zA-Z_]\<close>\<close>
  "is_ident_start c = (let n = (of_char c :: nat) in
     (65 \<le> n \<and> n \<le> 90) \<or> n = 95 \<or> (97 \<le> n \<and> n \<le> 122))"

definition is_word :: "char \<Rightarrow> bool" where
  \<comment> \<open>\<^verbatim>\<open>\w\<close>, that is \<^verbatim>\<open>[a-zA-Z0-9_]\<close>\<close>
  "is_word c = (is_digit c \<or> is_ident_start c)"

definition is_space :: "char \<Rightarrow> bool" where
  \<comment> \<open>\<^verbatim>\<open>\s\<close> and the characters \<^verbatim>\<open>trim()\<close> strips: TAB, LF, VT, FF, CR, SP, NBSP\<close>
  "is_space c = (of_char c \<in> {9, 10, 11, 12, 13, 32, 160 :: nat})"

definition is_dot :: "char \<Rightarrow> bool" where
  \<comment> \<open>\<^verbatim>\<open>.\<close>: any character that is not a line terminator\<close>
  "is_dot c = (c \<noteq> CHR 0x0A \<and> c \<noteq> CHR 0x0D)"

definition is_swizzle :: "char \<Rightarrow> bool" where
  \<comment> \<open>\<^verbatim>\<open>[xyzw]\<close>\<close>
  "is_swizzle c = (c \<in> set ''xyzw'')"

definition is_234 :: "char \<Rightarrow> bool" where
  \<comment> \<open>\<^verbatim>\<open>[234]\<close>\<close>
  "is_234 c = (c \<in> set ''234'')"

definition is_terminator :: "char \<Rightarrow> bool" where
  \<comment> \<open>\<^verbatim>\<open>[;,\)\{\}]\<close>\<close>
  "is_terminator c = (c \<in> set '';,){}'')"

definition canonicalize :: "bool \<Rightarrow> char \<Rightarrow> char" where
  \<comment> \<open>The \<^verbatim>\<open>i\<close> flag compares characters after upper-casing; every pattern of the
      program that carries the flag is ASCII, so only \<^verbatim>\<open>a-z\<close> are affected.\<close>
  "canonicalize ic c =
     (if ic
      then (case map_of (zip ''abcdefghijklmnopqrstuvwxyz'' ''ABCDEFGHIJKLMNOPQRSTUVWXYZ'') c of
              None \<Rightarrow> c | Some u \<Rightarrow> u)
      else c)"

definition sq :: string where
  \<comment> \<open>the single quote character\<close>
  "sq = [CHR 0x27]"

definition dq :: string where
  \<comment> \<open>the double quote character\<close>
  "dq = [CHR 0x22]"

definition starts_with :: "string \<Rightarrow> string \<Rightarrow> bool" where
  \<comment> \<open>\<^verbatim>\<open>s.startsWith(p)\<close>\<close>
  "starts_with p s = (take (length p) s = p)"

definition ends_with :: "string \<Rightarrow> string \<Rightarrow> bool" where
  \<comment> \<open>\<^verbatim>\<open>s.endsWith(p)\<close>\<close>
  "ends_with p s = (length p \<le> length s \<and> drop (length s - length p) s = p)"

fun str_includes :: "string \<Rightarrow> string \<Rightarrow> bool" where
  \<comment> \<open>\<^verbatim>\<open>s.includes(p)\<close>\<close>
  "str_includes p [] = (p = [])"
| "str_includes p (c # cs) = (starts_with p (c # cs) \<or> str_includes p cs)"

definition trim :: "string \<Rightarrow> string" where
  \<comment> \<open>\<^verbatim>\<open>s.trim()\<close>\<close>
  "trim s = rev (dropWhile is_space (rev (dropWhile is_space s)))"

fun split_nl :: "string \<Rightarrow> string list" where
  \<comment> \<open>\<^verbatim>\<open>s.split('\n')\<close>: the empty string gives one empty line\<close>
  "split_nl [] = [[]]"
| "split_nl (c # cs) =
     (if c = CHR 0x0A then [] # split_nl cs
      else (case split_nl cs of [] \<Rightarrow> [[c]] | l # ls \<Rightarrow> (c # l) # ls))"

fun join_nl :: "string list \<Rightarrow> string" where
  \<comment> \<open>\<^verbatim>\<open>lines.join('\n')\<close>\<close>
  "join_nl [] = []"
| "join_nl [l] = l"
| "join_nl (l # ls) = l @ CHR 0x0A # join_nl ls"

definition digit_char :: "nat \<Rightarrow> char" where
  "digit_char d = ''0123456789'' ! d"

fun string_of_nat :: "nat \<Rightarrow> string" where
  \<comment> \<open>a count interpolated into a template string\<close>
  "string_of_nat n =
     (if n < 10 then [digit_char n] else string_of_nat (n div 10) @ [digit_char (n mod 10)])"

section \<open>Regular expressions\<close>

text \<open>
  The patterns of the program, as a datatype. Repetition is only ever applied to a single
  character class in \<^verbatim>\<open>script.js\<close>, so \<open>Star\<close> (greedy \<^verbatim>\<open>c*\<close>) and \<open>LazyStar\<close>
  (\<^verbatim>\<open>c*?\<close>) take a class. \<open>Group n r\<close> is the \<open>n\<close>-th capturing group.
\<close>

datatype regex =
    Lit string
  | Cls "char \<Rightarrow> bool"
  | Seq regex regex
  | Alt regex regex
  | Opt regex
  | Star "char \<Rightarrow> bool"
  | LazyStar "char \<Rightarrow> bool"
  | Bol
  | Eol
  | WordB
  | Group nat regex

definition Plus :: "(char \<Rightarrow> bool) \<Rightarrow> regex" where
  \<comment> \<open>\<^verbatim>\<open>c+\<close>\<close>
  "Plus P = Seq (Cls P) (Star P)"

fun seqs :: "regex list \<Rightarrow> regex" where
  "seqs [] = Lit []"
| "seqs [r] = r"
| "seqs (r # rs) = Seq r (seqs rs)"

fun alts :: "regex list \<Rightarrow> regex" where
  "alts [] = Cls (\<lambda>_. False)"
| "alts [r] = r"
| "alts (r # rs) = Alt r (alts rs)"

text \<open>
  A matcher state is the captures made so far (newest first), the text before the current
  position (reversed) and the text from the current position on. Running a pattern from
  a state gives every state in which it can end, in the order in which a backtracking
  matcher tries them: the head of the list is the match JavaScript reports.
\<close>

type_synonym captures = "(nat \<times> string) list"
type_synonym mstate = "captures \<times> string \<times> string"

fun star_greedy :: "(char \<Rightarrow> bool) \<Rightarrow> captures \<Rightarrow> string \<Rightarrow> string \<Rightarrow> mstate list" where
  "star_greedy P g b [] = [(g, b, [])]"
| "star_greedy P g b (c # cs) =
     (if P c then star_greedy P g (c # b) cs @ [(g, b, c # cs)] else [(g, b, c # cs)])"

fun star_lazy :: "(char \<Rightarrow> bool) \<Rightarrow> captures \<Rightarrow> string \<Rightarrow> string \<Rightarrow> mstate list" where
  "star_lazy P g b [] = [(g, b, [])]"
| "star_lazy P g b (c # cs) =
     (g, b, c # cs) # (if P c then star_lazy P g (c # b) cs else [])"

definition word_at :: "string \<Rightarrow> bool" where
  \<comment> \<open>is the nearest character a word character (false at either end of the text)\<close>
  "word_at s = (case s of [] \<Rightarrow> False | c # _ \<Rightarrow> is_word c)"

fun lit_run :: "bool \<Rightarrow> string \<Rightarrow> string \<Rightarrow> string \<Rightarrow> (string \<times> string) option" where
  "lit_run ic [] b r = Some (b, r)"
| "lit_run ic (x # xs) b [] = None"
| "lit_run ic (x # xs) b (c # cs) =
     (if canonicalize ic c = canonicalize ic x then lit_run ic xs (c # b) cs else None)"

fun rx_run :: "bool \<Rightarrow> regex \<Rightarrow> mstate \<Rightarrow> mstate list" where
  "rx_run ic (Lit s) (g, b, r) =
     (case lit_run ic s b r of None \<Rightarrow> [] | Some (b', r') \<Rightarrow> [(g, b', r')])"
| "rx_run ic (Cls P) (g, b, r) =
     (case r of [] \<Rightarrow> [] | c # cs \<Rightarrow> if P c then [(g, c # b, cs)] else [])"
| "rx_run ic (Seq p q) st = concat (map (rx_run ic q) (rx_run ic p st))"
| "rx_run ic (Alt p q) st = rx_run ic p st @ rx_run ic q st"
| "rx_run ic (Opt p) st = rx_run ic p st @ [st]"
| "rx_run ic (Star P) (g, b, r) = star_greedy P g b r"
| "rx_run ic (LazyStar P) (g, b, r) = star_lazy P g b r"
| "rx_run ic Bol (g, b, r) = (if b = [] then [(g, b, r)] else [])"
| "rx_run ic Eol (g, b, r) = (if r = [] then [(g, b, r)] else [])"
| "rx_run ic WordB (g, b, r) = (if word_at b \<noteq> word_at r then [(g, b, r)] else [])"
| "rx_run ic (Group n p) (g, b, r) =
     map (\<lambda>(g', b', r'). ((n, take (length r - length r') r) # g', b', r'))
         (rx_run ic p (g, b, r))"

text \<open>\<^verbatim>\<open>rx.exec(s)\<close> without the \<^verbatim>\<open>g\<close> flag: the first match at the leftmost position.\<close>

fun rx_exec_from :: "bool \<Rightarrow> regex \<Rightarrow> string \<Rightarrow> string \<Rightarrow> mstate option" where
  "rx_exec_from ic r b [] =
     (case rx_run ic r ([], b, []) of [] \<Rightarrow> None | st # _ \<Rightarrow> Some st)"
| "rx_exec_from ic r b (c # cs) =
     (case rx_run ic r ([], b, c # cs) of
        [] \<Rightarrow> rx_exec_from ic r (c # b) cs
      | st # _ \<Rightarrow> Some st)"

definition rx_test :: "bool \<Rightarrow> regex \<Rightarrow> string \<Rightarrow> bool" where
  \<comment> \<open>\<^verbatim>\<open>rx.test(s)\<close>\<close>
  "rx_test ic r s = (rx_exec_from ic r [] s \<noteq> None)"

definition grp :: "captures \<Rightarrow> nat \<Rightarrow> string" where
  \<comment> \<open>the text of a group; a group that took no part in the match counts as empty\<close>
  "grp g n = (case map_of g n of None \<Rightarrow> [] | Some s \<Rightarrow> s)"

definition rx_match :: "bool \<Rightarrow> regex \<Rightarrow> string \<Rightarrow> captures option" where
  \<comment> \<open>\<^verbatim>\<open>s.match(rx)\<close> without the \<^verbatim>\<open>g\<close> flag, reduced to the captures\<close>
  "rx_match ic r s = map_option fst (rx_exec_from ic r [] s)"

text \<open>
  A pattern with the \<^verbatim>\<open>g\<close> flag is applied from left to right: after a match the search
  resumes where the match ended, and after an empty match one character further on.
  \<open>rx_scan\<close> cuts the text into the characters kept and the matches found.
\<close>

datatype piece = Keep char | Hit string captures

function rx_scan :: "bool \<Rightarrow> regex \<Rightarrow> string \<Rightarrow> string \<Rightarrow> piece list" where
  "rx_scan ic r b [] =
     (case rx_run ic r ([], b, []) of [] \<Rightarrow> [] | (g, _) # _ \<Rightarrow> [Hit [] g])"
| "rx_scan ic r b (c # cs) =
     (case rx_run ic r ([], b, c # cs) of
        [] \<Rightarrow> Keep c # rx_scan ic r (c # b) cs
      | (g, b', rest') # _ \<Rightarrow>
          (if length rest' < Suc (length cs)
           then Hit (take (Suc (length cs) - length rest') (c # cs)) g # rx_scan ic r b' rest'
           else Hit [] g # Keep c # rx_scan ic r (c # b) cs))"
  by pat_completeness auto
termination
  by (relation "measure (\<lambda>(ic, r, b, rest). length rest)") auto

definition rx_replace_all :: "bool \<Rightarrow> regex \<Rightarrow> (string \<Rightarrow> captures \<Rightarrow> string) \<Rightarrow> string \<Rightarrow> string" where
  \<comment> \<open>\<^verbatim>\<open>s.replace(rx, f)\<close> with the \<^verbatim>\<open>g\<close> flag; \<open>f\<close> gets the match and its groups\<close>
  "rx_replace_all ic r f s =
     concat (map (\<lambda>p. case p of Keep c \<Rightarrow> [c] | Hit m g \<Rightarrow> f m g) (rx_scan ic r [] s))"

definition rx_count :: "bool \<Rightarrow> regex \<Rightarrow> string \<Rightarrow> nat" where
  \<comment> \<open>\<^verbatim>\<open>(s.match(rx) || []).length\<close> with the \<^verbatim>\<open>g\<close> flag\<close>
  "rx_count ic r s = length (filter (\<lambda>p. case p of Keep _ \<Rightarrow> False | Hit _ _ \<Rightarrow> True)
                                    (rx_scan ic r [] s))"

section \<open>The log\<close>

text \<open>
  \<^verbatim>\<open>logMain\<close> and \<^verbatim>\<open>logCompile\<close> put a line in front of the text of a log element. A
  log is modelled as the list of its entries, level and message, in the order they were
  written; the time stamp of a line is left out.
\<close>

type_synonym entry = "string \<times> string"
type_synonym trace = "entry list"

definition logMain :: "string \<Rightarrow> trace" where
  \<comment> \<open>the level defaults to \<^verbatim>\<open>'OK'\<close>\<close>
  "logMain msg = [(''OK'', msg)]"

definition logMainErr :: "string \<Rightarrow> trace" where
  \<comment> \<open>\<^verbatim>\<open>logMain(msg, 'ERR')\<close>\<close>
  "logMainErr msg = [(''ERR'', msg)]"

section \<open>JavaScript values\<close>

text \<open>
  \<^verbatim>\<open>smartFixShader\<close> and \<^verbatim>\<open>parseErrorsAndFix\<close> are exported on \<^verbatim>\<open>window.GODFIX_UI\<close>
  and take whatever a caller passes. The model covers strings, the primitive values
  \<^verbatim>\<open>undefined\<close>, \<^verbatim>\<open>null\<close>, \<^verbatim>\<open>true\<close> and \<^verbatim>\<open>false\<close>, and objects of one kind:
  \<open>JThrower v\<close> is an object whose own methods \<^verbatim>\<open>replace\<close>, \<^verbatim>\<open>split\<close>,
  \<^verbatim>\<open>includes\<close> and \<^verbatim>\<open>match\<close> throw the value \<open>v\<close>, and that has no other property of
  its own. Numbers, symbols and objects whose methods return are not covered.

  What a statement can throw is a \<^verbatim>\<open>TypeError\<close> of the engine (calling a string method
  on a value that has none), given by its message, or the value a method of an object
  throws.
\<close>

datatype jsval = JUndefined | JNull | JBool bool | JStr string | JThrower jsval

datatype thrown = TypeError string | Thrown jsval

type_synonym 'a attempt = "string + 'a"
type_synonym 'a completion = "thrown + 'a"

fun is_object :: "jsval \<Rightarrow> bool" where
  "is_object (JThrower v) = True"
| "is_object _ = False"

fun truthy :: "jsval \<Rightarrow> bool" where
  "truthy JUndefined = False"
| "truthy JNull = False"
| "truthy (JBool b) = b"
| "truthy (JStr s) = (s \<noteq> [])"
| "truthy (JThrower v) = True"

definition or_empty :: "jsval \<Rightarrow> jsval" where
  \<comment> \<open>\<^verbatim>\<open>(v || '')\<close>\<close>
  "or_empty v = (if truthy v then v else JStr [])"

fun to_string :: "jsval \<Rightarrow> string" where
  \<comment> \<open>the conversion that \<^verbatim>\<open>+\<close> with a string and \<^verbatim>\<open>rx.test\<close> apply to their operand\<close>
  "to_string JUndefined = ''undefined''"
| "to_string JNull = ''null''"
| "to_string (JBool b) = (if b then ''true'' else ''false'')"
| "to_string (JStr s) = s"
| "to_string (JThrower v) = ''[object Object]''"

fun receiver :: "string \<Rightarrow> string \<Rightarrow> jsval \<Rightarrow> string completion" where
  \<comment> \<open>the call \<open>x.m(...)\<close> of a string method on the value of the expression \<open>x\<close>:
      the string on which the method works, or what the call throws (the wording of a
      \<^verbatim>\<open>TypeError\<close> is that of V8)\<close>
  "receiver x m (JStr s) = Inr s"
| "receiver x m JUndefined =
     Inl (TypeError (''Cannot read properties of undefined (reading '' @ sq @ m @ sq @ '')''))"
| "receiver x m JNull =
     Inl (TypeError (''Cannot read properties of null (reading '' @ sq @ m @ sq @ '')''))"
| "receiver x m (JBool b) = Inl (TypeError (x @ ''.'' @ m @ '' is not a function''))"
| "receiver x m (JThrower v) = Inl (Thrown v)"

fun errorText :: "thrown \<Rightarrow> string completion" where
  \<comment> \<open>\<^verbatim>\<open>(e.message || e)\<close>, as the string it becomes when it is appended to the log
      line. Reading \<^verbatim>\<open>message\<close> off \<^verbatim>\<open>null\<close> or \<^verbatim>\<open>undefined\<close> throws; a string, a
      boolean and a \<open>JThrower\<close> have no \<^verbatim>\<open>message\<close>.\<close>
  "errorText (TypeError m) = Inr (if m \<noteq> [] then m else ''TypeError'')"
| "errorText (Thrown JUndefined) =
     Inl (TypeError (''Cannot read properties of undefined (reading '' @ sq @ ''message'' @ sq @ '')''))"
| "errorText (Thrown JNull) =
     Inl (TypeError (''Cannot read properties of null (reading '' @ sq @ ''message'' @ sq @ '')''))"
| "errorText (Thrown v) = Inr (to_string v)"

definition caught :: "string \<Rightarrow> jsval \<Rightarrow> trace \<Rightarrow> thrown \<Rightarrow> jsval completion \<times> trace" where
  \<comment> \<open>the \<^verbatim>\<open>catch\<close> block \<^verbatim>\<open>logMain(prefix + (e.message || e), 'ERR'); return code;\<close>
      entered with the log \<open>tr\<close>: it returns \<^verbatim>\<open>code\<close>, or throws itself\<close>
  "caught prefix code tr e =
     (case errorText e of
        Inl e' \<Rightarrow> (Inl e', tr)
      | Inr msg \<Rightarrow> (Inr code, tr @ logMainErr (prefix @ msg)))"

section \<open>The repair pipeline: \<^verbatim>\<open>smartFixShader\<close>\<close>

definition normalizeNewlines :: "string \<Rightarrow> string" where
  \<comment> \<open>\<^verbatim>\<open>.replace(/\r\n/g, '\n').replace(/\r/g, '\n')\<close>\<close>
  "normalizeNewlines s =
     rx_replace_all False (Lit [CHR 0x0D]) (\<lambda>m g. [CHR 0x0A])
       (rx_replace_all False (Lit [CHR 0x0D, CHR 0x0A]) (\<lambda>m g. [CHR 0x0A]) s)"

subsection \<open>1. add precision if missing\<close>

definition rx_precision :: regex where
  \<comment> \<open>\<^verbatim>\<open>/precision\s+(lowp|mediump|highp)\s+float\s*;/\<close>\<close>
  "rx_precision = seqs [Lit ''precision'', Plus is_space,
      Group 1 (alts [Lit ''lowp'', Lit ''mediump'', Lit ''highp'']),
      Plus is_space, Lit ''float'', Star is_space, Lit '';'']"

definition ensurePrecision :: "string \<Rightarrow> string \<times> trace" where
  "ensurePrecision out =
     (if \<not> rx_test False rx_precision out
      then (''precision mediump float;'' @ [CHR 0x0A] @ out,
            logMain ''Inserted precision mediump float;'')
      else (out, []))"

subsection \<open>2. common uniforms\<close>

definition rx_uniform :: "string \<Rightarrow> string \<Rightarrow> regex" where
  \<comment> \<open>\<^verbatim>\<open>/\buniform\s+T\s+N\b/\<close> for a type \<open>T\<close> and a name \<open>N\<close>\<close>
  "rx_uniform ty name =
     seqs [WordB, Lit ''uniform'', Plus is_space, Lit ty, Plus is_space, Lit name, WordB]"

definition uniforms :: "(regex \<times> string) list" where
  "uniforms =
    [(rx_uniform ''float'' ''uTime'', ''uniform float uTime;''),
     (rx_uniform ''vec2'' ''uResolution'', ''uniform vec2 uResolution;''),
     (rx_uniform ''sampler2D'' ''uSampler'', ''uniform sampler2D uSampler;''),
     (rx_uniform ''float'' ''uRotate'', ''uniform float uRotate;''),
     (rx_uniform ''float'' ''uZoom'', ''uniform float uZoom;''),
     (rx_uniform ''float'' ''uColorOffset'', ''uniform float uColorOffset;'')]"

definition ensureUniform :: "string \<times> nat \<Rightarrow> regex \<times> string \<Rightarrow> string \<times> nat" where
  \<comment> \<open>the body of the \<^verbatim>\<open>forEach\<close>, on \<^verbatim>\<open>out\<close> and the counter \<^verbatim>\<open>added\<close>\<close>
  "ensureUniform acc u =
     (case acc of (out, added) \<Rightarrow>
        if \<not> rx_test False (fst u) out then (snd u @ [CHR 0x0A] @ out, added + 1)
        else (out, added))"

definition ensureUniforms :: "string \<Rightarrow> string \<times> trace" where
  "ensureUniforms out0 =
     (case foldl ensureUniform (out0, 0) uniforms of (out, added) \<Rightarrow>
        (out, if added \<noteq> 0 then logMain (''Added '' @ string_of_nat added @ '' uniform(s)'')
              else []))"

subsection \<open>3. texture2D -> texture\<close>

definition rx_texture2D :: regex where
  \<comment> \<open>\<^verbatim>\<open>/texture2D\(/\<close>\<close>
  "rx_texture2D = Lit ''texture2D(''"

definition replaceTexture2D :: "string \<Rightarrow> string" where
  \<comment> \<open>\<^verbatim>\<open>.replace(/texture2D\(/g, 'texture(')\<close>\<close>
  "replaceTexture2D s = rx_replace_all False rx_texture2D (\<lambda>m g. ''texture('') s"

definition modernizeTextureCalls :: "string \<Rightarrow> string \<times> trace" where
  "modernizeTextureCalls out =
     (if rx_test False rx_texture2D out
      then (replaceTexture2D out, logMain ''Converted texture2D -> texture'')
      else (out, []))"

subsection \<open>4. semicolon insertion\<close>

definition rx_qualifier :: regex where
  \<comment> \<open>\<^verbatim>\<open>/^(uniform|attribute|varying|in|out|const)\b/\<close>\<close>
  "rx_qualifier = seqs [Bol,
      Group 1 (alts [Lit ''uniform'', Lit ''attribute'', Lit ''varying'', Lit ''in'',
                     Lit ''out'', Lit ''const'']),
      WordB]"

definition semicolonLine :: "string \<Rightarrow> string" where
  \<comment> \<open>the function mapped over the lines\<close>
  "semicolonLine line =
     (let t = trim line in
      if t = [] then line
      else if starts_with ''//'' t \<or> starts_with ''/*'' t \<or> starts_with ''*'' t
              \<or> starts_with ''#'' t then line
      else if rx_test False (seqs [Lit '')'', Star is_space, Lit ''{'']) t
              \<or> rx_test False (Seq (Lit ''{'') Eol) t
              \<or> rx_test False (Seq (Lit ''}'') Eol) t then line
      else if rx_test False (Seq (Cls is_terminator) Eol) t then line
      else if rx_test False rx_qualifier t \<and> \<not> ends_with '';'' t then line @ '';''
      else if rx_test False (Lit ''='') t \<and> \<not> rx_test False (Lit ''=='') t
              \<and> \<not> ends_with '';'' t then line @ '';''
      else line)"

definition insertMissingSemicolons :: "string \<Rightarrow> string \<times> trace" where
  "insertMissingSemicolons out =
     (join_nl (map semicolonLine (split_nl out)), logMain ''Smart semicolons pass complete'')"

subsection \<open>5. division guards\<close>

definition rx_division :: regex where
  \<comment> \<open>\<^verbatim>\<open>/\/\s*\(?([a-zA-Z_]\w*(?:\.[xyzw]{1,4})?)(\)?)/\<close>; the bounded repetition
      \<^verbatim>\<open>[xyzw]{1,4}\<close> is one character followed by up to three optional ones\<close>
  "rx_division = seqs [Lit ''/'', Star is_space, Opt (Lit ''(''),
     Group 1 (seqs [Cls is_ident_start, Star is_word,
        Opt (seqs [Lit ''.'', Cls is_swizzle,
               Opt (Seq (Cls is_swizzle) (Opt (Seq (Cls is_swizzle) (Opt (Cls is_swizzle)))))])]),
     Group 2 (Opt (Lit '')''))]"

definition divisionReplacer :: "string \<Rightarrow> captures \<Rightarrow> string" where
  \<comment> \<open>the arrow function \<^verbatim>\<open>(m, g1, g2) => ...\<close>\<close>
  "divisionReplacer m g =
     (if rx_test False (Seq Bol (Cls is_digit)) (grp g 1) then ''/'' @ grp g 1 @ grp g 2
      else ''/ max('' @ grp g 1 @ '', 0.000001)'' @ grp g 2)"

definition guardDivisions :: "string \<Rightarrow> string \<times> trace" where
  "guardDivisions out =
     (rx_replace_all False rx_division divisionReplacer out, logMain ''Inserted division guards'')"

subsection \<open>6. close braces/parens\<close>

definition closeBraces :: "string \<Rightarrow> string \<times> trace" where
  "closeBraces out =
     (let opens = rx_count False (Lit ''{'') out; closes = rx_count False (Lit ''}'') out in
      if opens > closes
      then (out @ [CHR 0x0A] @ replicate (opens - closes) (CHR ''}''),
            logMain (''Closed '' @ string_of_nat (opens - closes) @ '' missing braces''))
      else (out, []))"

definition closeParens :: "string \<Rightarrow> string \<times> trace" where
  "closeParens out =
     (let opar = rx_count False (Lit ''('') out; cpar = rx_count False (Lit '')'') out in
      if opar > cpar
      then (out @ replicate (opar - cpar) (CHR '')''),
            logMain (''Closed '' @ string_of_nat (opar - cpar) @ '' missing parentheses''))
      else (out, []))"

subsection \<open>7. fix placeholders\<close>

definition replacePlaceholders :: "string \<Rightarrow> string" where
  \<comment> \<open>\<^verbatim>\<open>.replace(/\bundefined\b/g, '0.0').replace(/\bNULL\b/g, '0.0')\<close>\<close>
  "replacePlaceholders out =
     rx_replace_all False (seqs [WordB, Lit ''NULL'', WordB]) (\<lambda>m g. ''0.0'')
       (rx_replace_all False (seqs [WordB, Lit ''undefined'', WordB]) (\<lambda>m g. ''0.0'') out)"

subsection \<open>8. type mismatch: numeric to vec wrapper\<close>

definition rx_vecInit :: regex where
  \<comment> \<open>\<^verbatim>\<open>/\b(vec[234])\s+([a-zA-Z_]\w*)\s*=\s*([0-9]+(?:\.[0-9]+)?)\s*;/\<close>\<close>
  "rx_vecInit = seqs [WordB, Group 1 (Seq (Lit ''vec'') (Cls is_234)), Plus is_space,
     Group 2 (Seq (Cls is_ident_start) (Star is_word)), Star is_space, Lit ''='',
     Star is_space,
     Group 3 (Seq (Plus is_digit) (Opt (Seq (Lit ''.'') (Plus is_digit)))),
     Star is_space, Lit '';'']"

definition coerceVecLiteralInit :: "string \<Rightarrow> string" where
  \<comment> \<open>the replacement is \<^verbatim>\<open>'$1 $2 = $1($3);'\<close>\<close>
  "coerceVecLiteralInit out =
     rx_replace_all False rx_vecInit
       (\<lambda>m g. grp g 1 @ '' '' @ grp g 2 @ '' = '' @ grp g 1 @ ''('' @ grp g 3 @ '');'') out"

subsection \<open>9. ensure main\<close>

definition rx_main :: regex where
  \<comment> \<open>\<^verbatim>\<open>/\bvoid\s+main\s*\(/\<close>\<close>
  "rx_main = seqs [WordB, Lit ''void'', Plus is_space, Lit ''main'', Star is_space, Lit ''('']"

definition FALLBACK_MAIN :: string where
  "FALLBACK_MAIN = [CHR 0x0A] @ ''void main(){ gl_FragColor = vec4(0.0); }''"

definition ensureMainPresent :: "string \<Rightarrow> string \<times> trace" where
  "ensureMainPresent out =
     (if \<not> rx_test False rx_main out
      then (out @ FALLBACK_MAIN, logMain ''Appended fallback main()'')
      else (out, []))"

subsection \<open>The pipeline\<close>

definition andThen :: "string \<times> trace \<Rightarrow> (string \<Rightarrow> string \<times> trace) \<Rightarrow> string \<times> trace" where
  \<comment> \<open>the next statement works on \<^verbatim>\<open>out\<close> and adds its lines to the log\<close>
  "andThen acc step = (case acc of (out, tr) \<Rightarrow> (case step out of (out', tr') \<Rightarrow> (out', tr @ tr')))"

definition silent :: "(string \<Rightarrow> string) \<Rightarrow> string \<Rightarrow> string \<times> trace" where
  "silent f out = (f out, [])"

definition repairSteps :: "string \<Rightarrow> string \<times> trace" where
  \<comment> \<open>the statements of the \<^verbatim>\<open>try\<close> block after line-terminator normalisation\<close>
  "repairSteps out =
     foldl andThen (out, [])
       [ensurePrecision, ensureUniforms, modernizeTextureCalls, insertMissingSemicolons,
        guardDivisions, closeBraces, closeParens, silent replacePlaceholders,
        silent coerceVecLiteralInit, ensureMainPresent]"

definition smartFixShader :: "jsval \<Rightarrow> jsval completion \<times> trace" where
  \<comment> \<open>One \<^verbatim>\<open>try\<close> block around the whole body; the \<^verbatim>\<open>catch\<close> logs and returns
      \<^verbatim>\<open>code\<close>. The result is what the call returns (\<open>Inr\<close>) or throws (\<open>Inl\<close>),
      and the lines it logged. A returned string is also stored in
      \<^verbatim>\<open>window.GODFIX_FIXED\<close>.\<close>
  "smartFixShader code =
     (case receiver (''(code || '' @ dq @ dq @ '')'') ''replace'' (or_empty code) of
        Inl e \<Rightarrow>
          caught ''smartFixShader error: '' code (logMain ''Starting smartFixShader pass'') e
      | Inr s \<Rightarrow>
          (case repairSteps (normalizeNewlines s) of (out, tr) \<Rightarrow>
             (Inr (JStr out), logMain ''Starting smartFixShader pass'' @ tr
                              @ logMain ''smartFixShader done'')))"

section \<open>Fixing from compile logs: \<^verbatim>\<open>parseErrorsAndFix\<close>\<close>

subsection \<open>The diagnostic lines\<close>

definition rx_errorLine :: regex where
  \<comment> \<open>\<^verbatim>\<open>/error|failed|undefined|undeclared|expected|missing|unmatched|link error/i\<close>\<close>
  "rx_errorLine = alts [Lit ''error'', Lit ''failed'', Lit ''undefined'', Lit ''undeclared'',
     Lit ''expected'', Lit ''missing'', Lit ''unmatched'', Lit ''link error'']"

definition diagnosticLines :: "string \<Rightarrow> string list" where
  \<comment> \<open>\<^verbatim>\<open>.split('\n').map(s => s.trim()).filter(Boolean)\<close>\<close>
  "diagnosticLines logs = filter (\<lambda>l. l \<noteq> []) (map trim (split_nl logs))"

definition candidateErrors :: "string list \<Rightarrow> string list" where
  \<comment> \<open>\<^verbatim>\<open>errors.length ? errors : lines.slice(0, 20)\<close>\<close>
  "candidateErrors lines =
     (let errors = filter (rx_test True rx_errorLine) lines in
      if errors \<noteq> [] then errors else take 20 lines)"

subsection \<open>The patches applied for one diagnostic line\<close>

text \<open>
  Each patch works on the variable \<^verbatim>\<open>patched\<close>, which starts as the argument \<^verbatim>\<open>code\<close>
  and so may be any value; a patch gives the new value or the error it raises, and the
  lines it logs.
\<close>

type_synonym patch = "jsval \<Rightarrow> jsval completion \<times> trace"

definition unchanged :: patch where
  "unchanged patched = (Inr patched, [])"

definition rx_semicolonDiag :: regex where
  \<comment> \<open>\<^verbatim>\<open>/expected ';'|missing ';'|syntax error.*expected ';'/i\<close>\<close>
  "rx_semicolonDiag = alts [Lit (''expected '' @ sq @ '';'' @ sq), Lit (''missing '' @ sq @ '';'' @ sq),
     seqs [Lit ''syntax error'', Star is_dot, Lit (''expected '' @ sq @ '';'' @ sq)]]"

definition semicolonLineFromLogs :: "string \<Rightarrow> string" where
  "semicolonLineFromLogs line =
     (let t = trim line in
      if t = [] then line
      else if starts_with ''//'' t \<or> starts_with ''#'' t \<or> ends_with '';'' t
              \<or> ends_with ''{'' t \<or> ends_with ''}'' t then line
      else if rx_test False (Seq (Cls is_terminator) Eol) t then line
      else if rx_test False (Lit ''='') t \<and> \<not> rx_test False (Lit ''=='') t then line @ '';''
      else line)"

definition rx_quotedSemicolon :: regex where
  \<comment> \<open>\<^verbatim>\<open>/';'/\<close>\<close>
  "rx_quotedSemicolon = Lit (sq @ '';'' @ sq)"

definition semicolonPatch :: "string \<Rightarrow> patch" where
  "semicolonPatch err patched =
     (if rx_test True rx_semicolonDiag err \<or> rx_test False rx_quotedSemicolon err
      then (case receiver ''patched'' ''split'' patched of
              Inl e \<Rightarrow> (Inl e, [])
            | Inr s \<Rightarrow> (Inr (JStr (join_nl (map semicolonLineFromLogs (split_nl s)))),
                        logMain ''Applied semicolon heuristic (from logs)''))
      else unchanged patched)"

definition rx_undeclared :: regex where
  \<comment> \<open>\<^verbatim>\<open>/'(.*?)'\s*:\s*undeclared identifier|undeclared identifier\s*'(.*?)'|error: '(.*?)' undeclared/i\<close>\<close>
  "rx_undeclared = alts
     [seqs [Lit sq, Group 1 (LazyStar is_dot), Lit sq, Star is_space, Lit '':'', Star is_space,
            Lit ''undeclared identifier''],
      seqs [Lit ''undeclared identifier'', Star is_space, Lit sq, Group 2 (LazyStar is_dot), Lit sq],
      seqs [Lit (''error: '' @ sq), Group 3 (LazyStar is_dot), Lit (sq @ '' undeclared'')]]"

definition firstCaptured :: "captures \<Rightarrow> string" where
  \<comment> \<open>\<^verbatim>\<open>(m[1] || m[2] || m[3] || '')\<close>\<close>
  "firstCaptured g =
     (if grp g 1 \<noteq> [] then grp g 1 else if grp g 2 \<noteq> [] then grp g 2
      else if grp g 3 \<noteq> [] then grp g 3 else [])"

definition sanitizeId :: "string \<Rightarrow> string" where
  \<comment> \<open>\<^verbatim>\<open>.replace(/[^a-zA-Z0-9_]/g, '')\<close>\<close>
  "sanitizeId s = rx_replace_all False (Cls (\<lambda>c. \<not> is_word c)) (\<lambda>m g. []) s"

definition undeclaredPatch :: "string \<Rightarrow> patch" where
  "undeclaredPatch err patched =
     (case rx_match True rx_undeclared err of
        None \<Rightarrow> unchanged patched
      | Some g \<Rightarrow>
          (let ident = sanitizeId (firstCaptured g) in
           if ident \<noteq> []
           then (Inr (JStr (''uniform float '' @ ident @ '';'' @ [CHR 0x0A] @ to_string patched)),
                 logMain (''Declared '' @ ident @ '' as uniform float (heuristic)''))
           else unchanged patched))"

definition rx_implicitDiag :: regex where
  \<comment> \<open>\<^verbatim>\<open>/implicitly convert|cannot convert|conversion from 'int' to 'float'|to 'float'/i\<close>\<close>
  "rx_implicitDiag = alts [Lit ''implicitly convert'', Lit ''cannot convert'',
     Lit (''conversion from '' @ sq @ ''int'' @ sq @ '' to '' @ sq @ ''float'' @ sq),
     Lit (''to '' @ sq @ ''float'' @ sq)]"

definition intsToFloats :: "string \<Rightarrow> string" where
  \<comment> \<open>\<^verbatim>\<open>.replace(/\b([0-9]+)\b/g, '$1.0')\<close>\<close>
  "intsToFloats s =
     rx_replace_all False (seqs [WordB, Group 1 (Plus is_digit), WordB]) (\<lambda>m g. grp g 1 @ ''.0'') s"

definition implicitPatch :: "string \<Rightarrow> patch" where
  "implicitPatch err patched =
     (if rx_test True rx_implicitDiag err
      then (case receiver ''patched'' ''replace'' patched of
              Inl e \<Rightarrow> (Inl e, [])
            | Inr s \<Rightarrow> (Inr (JStr (intsToFloats s)),
                        logMain ''Converted integer literals to floats (heuristic)''))
      else unchanged patched)"

definition rx_textureDiag :: regex where
  \<comment> \<open>\<^verbatim>\<open>/texture2D\(|texture\(/i\<close>\<close>
  "rx_textureDiag = alts [Lit ''texture2D('', Lit ''texture('']"

definition texturePatch :: "string \<Rightarrow> patch" where
  \<comment> \<open>\<^verbatim>\<open>/texture2D\(|texture\(/i.test(err) && patched.includes('texture2D(')\<close>\<close>
  "texturePatch err patched =
     (if rx_test True rx_textureDiag err
      then (case receiver ''patched'' ''includes'' patched of
              Inl e \<Rightarrow> (Inl e, [])
            | Inr s \<Rightarrow>
                if str_includes ''texture2D('' s
                then (Inr (JStr (replaceTexture2D s)),
                      logMain ''Converted texture2D->texture (from logs)'')
                else unchanged patched)
      else unchanged patched)"

definition rx_mainDiag :: regex where
  \<comment> \<open>\<^verbatim>\<open>/undefined reference.*main|no main function|no symbol main/i\<close>\<close>
  "rx_mainDiag = alts [seqs [Lit ''undefined reference'', Star is_dot, Lit ''main''],
     Lit ''no main function'', Lit ''no symbol main'']"

definition mainPatch :: "string \<Rightarrow> patch" where
  "mainPatch err patched =
     (if rx_test True rx_mainDiag err \<and> \<not> rx_test False rx_main (to_string patched)
      then (Inr (JStr (to_string patched @ FALLBACK_MAIN)),
            logMain ''Appended fallback main() (from logs)'')
      else unchanged patched)"

definition rx_unmatchedDiag :: regex where
  \<comment> \<open>\<^verbatim>\<open>/unmatched|missing.*brace|missing.*parenth/i\<close>\<close>
  "rx_unmatchedDiag = alts [Lit ''unmatched'', seqs [Lit ''missing'', Star is_dot, Lit ''brace''],
     seqs [Lit ''missing'', Star is_dot, Lit ''parenth'']]"

definition closeBracesFromLogs :: "string \<Rightarrow> string \<times> trace" where
  "closeBracesFromLogs s =
     (let opens = rx_count False (Lit ''{'') s; closes = rx_count False (Lit ''}'') s in
      if opens > closes
      then (s @ [CHR 0x0A] @ replicate (opens - closes) (CHR ''}''),
            logMain ''Auto-closed braces (from logs)'')
      else (s, []))"

definition closeParensFromLogs :: "string \<Rightarrow> string \<times> trace" where
  "closeParensFromLogs s =
     (let opar = rx_count False (Lit ''('') s; cpar = rx_count False (Lit '')'') s in
      if opar > cpar
      then (s @ replicate (opar - cpar) (CHR '')''),
            logMain ''Auto-closed parentheses (from logs)'')
      else (s, []))"

definition unmatchedPatch :: "string \<Rightarrow> patch" where
  "unmatchedPatch err patched =
     (if rx_test True rx_unmatchedDiag err
      then (case receiver ''patched'' ''match'' patched of
              Inl e \<Rightarrow> (Inl e, [])
            | Inr s \<Rightarrow>
                (case andThen (closeBracesFromLogs s) closeParensFromLogs of
                   (s', tr) \<Rightarrow> (Inr (JStr s'), tr)))
      else unchanged patched)"

definition thenPatch :: "jsval completion \<times> trace \<Rightarrow> patch \<Rightarrow> jsval completion \<times> trace" where
  \<comment> \<open>the next statement runs unless an error was raised before it\<close>
  "thenPatch acc f =
     (case acc of
        (Inl e, tr) \<Rightarrow> (Inl e, tr)
      | (Inr patched, tr) \<Rightarrow> (case f patched of (res, tr') \<Rightarrow> (res, tr @ tr')))"

definition applyDiagnostic :: "string \<Rightarrow> patch" where
  \<comment> \<open>the body of \<^verbatim>\<open>candidateErrors.forEach\<close>\<close>
  "applyDiagnostic err patched =
     foldl thenPatch (Inr patched, [])
       [semicolonPatch err, undeclaredPatch err, implicitPatch err, texturePatch err,
        mainPatch err, unmatchedPatch err]"

definition applyDiagnostics :: "string list \<Rightarrow> patch" where
  "applyDiagnostics errs patched = foldl thenPatch (Inr patched, []) (map applyDiagnostic errs)"

definition parseErrorsAndFix :: "jsval \<Rightarrow> jsval \<Rightarrow> jsval completion \<times> trace" where
  \<comment> \<open>One \<^verbatim>\<open>try\<close> block around the whole body, the call of \<^verbatim>\<open>smartFixShader\<close>
      included; the \<^verbatim>\<open>catch\<close> logs and returns \<^verbatim>\<open>code\<close>.\<close>
  "parseErrorsAndFix code logsText =
     (case receiver (''(logsText || '' @ dq @ dq @ '')'') ''split'' (or_empty logsText) of
        Inl e \<Rightarrow>
          caught ''parseErrorsAndFix error: '' code
            (logMain ''parseErrorsAndFix: analyzing logs'') e
      | Inr logs \<Rightarrow>
          (case applyDiagnostics (candidateErrors (diagnosticLines logs)) code of
             (Inl e, tr) \<Rightarrow>
               caught ''parseErrorsAndFix error: '' code
                 (logMain ''parseErrorsAndFix: analyzing logs'' @ tr) e
           | (Inr patched, tr) \<Rightarrow>
               (case smartFixShader patched of
                  (Inl e, tr') \<Rightarrow>
                    caught ''parseErrorsAndFix error: '' code
                      (logMain ''parseErrorsAndFix: analyzing logs'' @ tr @ tr') e
                | (Inr fixed, tr') \<Rightarrow>
                    (Inr fixed, logMain ''parseErrorsAndFix: analyzing logs'' @ tr @ tr'
                                @ logMain ''parseErrorsAndFix completed''))))"

subsection \<open>A diagnostic line\<close>

definition undeclaredFooLine :: string where
  \<comment> \<open>the line \<^verbatim>\<open>ERROR: 'foo' : undeclared identifier\<close>\<close>
  "undeclaredFooLine = ''ERROR: '' @ sq @ ''foo'' @ sq @ '' : undeclared identifier''"

text \<open>The three phrasings of the pattern, around a quoted text \<open>x\<close>.\<close>

definition phrasing1 :: "string \<Rightarrow> string" where
  \<comment> \<open>\<^verbatim>\<open>'x' : undeclared identifier\<close>\<close>
  "phrasing1 x = sq @ x @ sq @ '' : undeclared identifier''"

definition phrasing2 :: "string \<Rightarrow> string" where
  \<comment> \<open>\<^verbatim>\<open>undeclared identifier 'x'\<close>\<close>
  "phrasing2 x = ''undeclared identifier '' @ sq @ x @ sq"

definition phrasing3 :: "string \<Rightarrow> string" where
  \<comment> \<open>\<^verbatim>\<open>error: 'x' undeclared\<close>\<close>
  "phrasing3 x = ''error: '' @ sq @ x @ sq @ '' undeclared''"

definition quotable :: "char \<Rightarrow> bool" where
  \<comment> \<open>a character that can stand between the quotes: not a quote, not a line terminator\<close>
  "quotable c = (is_dot c \<and> c \<noteq> CHR 0x27)"

section \<open>The colour a fallback main writes\<close>

text \<open>
  The fallback assigns \<^verbatim>\<open>vec4(0.0)\<close> to \<^verbatim>\<open>gl_FragColor\<close>. In GLSL ES 1.00
  (section 5.4.2) a vector constructor with a single scalar argument sets every component
  of the vector to that scalar; the components of \<^verbatim>\<open>gl_FragColor\<close> are red, green, blue
  and alpha, and alpha 1.0 is opaque. \<open>fragColorWritten\<close> reads the value off an
  assignment of this form.
\<close>

fun text_after :: "string \<Rightarrow> string \<Rightarrow> string option" where
  "text_after p [] = (if p = [] then Some [] else None)"
| "text_after p (c # cs) =
     (if starts_with p (c # cs) then Some (drop (length p) (c # cs)) else text_after p cs)"

definition digits_value :: "string \<Rightarrow> nat" where
  "digits_value ds = foldl (\<lambda>a d. 10 * a + (of_char d - 48)) 0 ds"

definition decimal_value :: "string \<Rightarrow> real option" where
  \<comment> \<open>a literal of the form \<^verbatim>\<open>digits.digits\<close>\<close>
  "decimal_value s =
     (let ip = takeWhile is_digit s; rest = dropWhile is_digit s in
      case rest of
        [] \<Rightarrow> None
      | c # fp \<Rightarrow>
          if ip \<noteq> [] \<and> c = CHR ''.'' \<and> fp \<noteq> [] \<and> list_all is_digit fp
          then Some (real (digits_value ip) + real (digits_value fp) / 10 ^ length fp)
          else None)"

definition fragColorWritten :: "string \<Rightarrow> real list option" where
  "fragColorWritten src =
     (case text_after ''gl_FragColor = vec4('' src of
        None \<Rightarrow> None
      | Some rest \<Rightarrow>
          (case decimal_value (takeWhile (\<lambda>c. c \<noteq> CHR '')'') rest) of
             None \<Rightarrow> None
           | Some v \<Rightarrow> Some [v, v, v, v]))"

section \<open>The preview engine\<close>

subsection \<open>\<^verbatim>\<open>compileAndRun\<close>\<close>

text \<open>
  Whether a shader compiles and a program links is decided by the graphics driver, so it
  is a parameter: \<open>compileInfo\<close> and \<open>linkInfo\<close> give the info log of a failure, and
  \<open>None\<close> when the status flag is set. Program objects and animation-frame requests
  are identified by numbers; \<open>livePrograms\<close> are the programs created and not deleted.
  The size of the canvas and the frames drawn are not part of the state: of
  \<^verbatim>\<open>render\<close> only the request for the next frame is kept.
\<close>

datatype shader_kind = VERTEX_SHADER | FRAGMENT_SHADER

record driver =
  compileInfo :: "shader_kind \<Rightarrow> string \<Rightarrow> string option"
  linkInfo :: "string \<Rightarrow> string \<Rightarrow> string option"

record webgl =
  gl :: bool
  program :: "nat option"
  animReq :: "nat option"
  startTime :: nat
  livePrograms :: "nat list"
  nextId :: nat
  compileLog :: trace
  statusLabel :: string

definition vs :: string where
  "vs = ''attribute vec2 aPos; void main(){ gl_Position = vec4(aPos,0.0,1.0); }''"

definition logCompile :: "string \<Rightarrow> string \<Rightarrow> webgl \<Rightarrow> webgl" where
  "logCompile msg level w = w\<lparr>compileLog := compileLog w @ [(level, msg)]\<rparr>"

definition compileShader :: "driver \<Rightarrow> shader_kind \<Rightarrow> string \<Rightarrow> (shader_kind \<times> string) attempt" where
  \<comment> \<open>a failed shader is deleted and its info log thrown\<close>
  "compileShader d kind src =
     (case compileInfo d kind src of Some info \<Rightarrow> Inl info | None \<Rightarrow> Inr (kind, src))"

definition compileFailed :: "string \<Rightarrow> webgl \<Rightarrow> webgl" where
  \<comment> \<open>the \<^verbatim>\<open>catch\<close> block\<close>
  "compileFailed msg w =
     (logCompile (''Compile/Link failed: '' @ msg) ''ERR'' w)\<lparr>statusLabel := ''Status: Compile Error''\<rparr>"

definition deletePrevious :: "webgl \<Rightarrow> webgl" where
  \<comment> \<open>\<^verbatim>\<open>if (webgl.program) { g.deleteProgram(webgl.program); webgl.program = null; }\<close>\<close>
  "deletePrevious w =
     (case program w of
        None \<Rightarrow> w
      | Some p \<Rightarrow> w\<lparr>livePrograms := removeAll p (livePrograms w), program := None\<rparr>)"

definition compileAndRun :: "driver \<Rightarrow> nat \<Rightarrow> string \<Rightarrow> webgl \<Rightarrow> webgl" where
  \<comment> \<open>\<open>now\<close> is the reading of \<^verbatim>\<open>performance.now()\<close>\<close>
  "compileAndRun d now src w =
     (if \<not> gl w then w
      else case compileShader d VERTEX_SHADER vs of
        Inl info \<Rightarrow> compileFailed info w
      | Inr vsS \<Rightarrow>
         (case compileShader d FRAGMENT_SHADER src of
            Inl info \<Rightarrow> compileFailed info w
          | Inr fsS \<Rightarrow>
             (let w1 = deletePrevious w;
                  p = nextId w1;
                  w2 = w1\<lparr>livePrograms := p # livePrograms w1, nextId := Suc p\<rparr>
              in case linkInfo d (snd vsS) (snd fsS) of
                   Some info \<Rightarrow>
                     compileFailed (''Link error: '' @ info)
                       (w2\<lparr>livePrograms := removeAll p (livePrograms w2)\<rparr>)
                 | None \<Rightarrow>
                     (logCompile ''Compiled & preview running'' ''OK''
                        (w2\<lparr>program := Some p, startTime := now,
                            animReq := Some (nextId w2), nextId := Suc (nextId w2)\<rparr>))
                     \<lparr>statusLabel := ''Status: Preview running''\<rparr>)))"

subsection \<open>Numbers\<close>

text \<open>
  The gesture handlers compute in IEEE doubles. A number is a finite value, an infinity or
  NaN. A finite result is kept as the real number it stands for, without rounding, unless
  its magnitude reaches \<open>2^1024 - 2^970\<close>, from where on round-to-nearest gives an
  infinity. Zero has no sign: a zero divisor counts as \<open>+0\<close>.
\<close>

datatype jsnum = Num real | PosInf | NegInf | NaN

definition overflowAt :: real where
  "overflowAt = 2 ^ 1024 - 2 ^ 970"

definition num :: "real \<Rightarrow> jsnum" where
  \<comment> \<open>the value of an operation whose exact result is \<open>r\<close>\<close>
  "num r = (if overflowAt \<le> r then PosInf else if r \<le> - overflowAt then NegInf else Num r)"

fun js_sub :: "jsnum \<Rightarrow> jsnum \<Rightarrow> jsnum" where
  "js_sub NaN y = NaN"
| "js_sub x NaN = NaN"
| "js_sub (Num a) (Num b) = num (a - b)"
| "js_sub (Num a) PosInf = NegInf"
| "js_sub (Num a) NegInf = PosInf"
| "js_sub PosInf PosInf = NaN"
| "js_sub NegInf NegInf = NaN"
| "js_sub PosInf y = PosInf"
| "js_sub NegInf y = NegInf"

fun js_add :: "jsnum \<Rightarrow> jsnum \<Rightarrow> jsnum" where
  "js_add NaN y = NaN"
| "js_add x NaN = NaN"
| "js_add (Num a) (Num b) = num (a + b)"
| "js_add (Num a) y = y"
| "js_add PosInf NegInf = NaN"
| "js_add NegInf PosInf = NaN"
| "js_add x y = x"

definition signed_inf :: "bool \<Rightarrow> jsnum" where
  "signed_inf positive = (if positive then PosInf else NegInf)"

fun js_mul :: "jsnum \<Rightarrow> jsnum \<Rightarrow> jsnum" where
  "js_mul NaN y = NaN"
| "js_mul x NaN = NaN"
| "js_mul (Num a) (Num b) = num (a * b)"
| "js_mul (Num a) PosInf = (if a = 0 then NaN else signed_inf (0 < a))"
| "js_mul (Num a) NegInf = (if a = 0 then NaN else signed_inf (a < 0))"
| "js_mul PosInf (Num b) = (if b = 0 then NaN else signed_inf (0 < b))"
| "js_mul NegInf (Num b) = (if b = 0 then NaN else signed_inf (b < 0))"
| "js_mul PosInf PosInf = PosInf"
| "js_mul NegInf NegInf = PosInf"
| "js_mul PosInf NegInf = NegInf"
| "js_mul NegInf PosInf = NegInf"

fun js_div :: "jsnum \<Rightarrow> jsnum \<Rightarrow> jsnum" where
  "js_div NaN y = NaN"
| "js_div x NaN = NaN"
| "js_div (Num a) (Num b) =
     (if b = 0 then (if a = 0 then NaN else signed_inf (0 < a)) else num (a / b))"
| "js_div (Num a) y = Num 0"
| "js_div PosInf (Num b) = signed_inf (0 \<le> b)"
| "js_div NegInf (Num b) = signed_inf (b < 0)"
| "js_div x y = NaN"

fun js_min :: "jsnum \<Rightarrow> jsnum \<Rightarrow> jsnum" where
  \<comment> \<open>\<^verbatim>\<open>Math.min\<close>: NaN when an argument is NaN\<close>
  "js_min NaN y = NaN"
| "js_min x NaN = NaN"
| "js_min NegInf y = NegInf"
| "js_min x NegInf = NegInf"
| "js_min PosInf y = y"
| "js_min x PosInf = x"
| "js_min (Num a) (Num b) = Num (min a b)"

fun js_max :: "jsnum \<Rightarrow> jsnum \<Rightarrow> jsnum" where
  \<comment> \<open>\<^verbatim>\<open>Math.max\<close>: NaN when an argument is NaN\<close>
  "js_max NaN y = NaN"
| "js_max x NaN = NaN"
| "js_max PosInf y = PosInf"
| "js_max x PosInf = PosInf"
| "js_max NegInf y = y"
| "js_max x NegInf = x"
| "js_max (Num a) (Num b) = Num (max a b)"

fun hypot :: "jsnum \<Rightarrow> jsnum \<Rightarrow> jsnum" where
  \<comment> \<open>\<^verbatim>\<open>Math.hypot\<close>: an infinite argument gives \<open>+Infinity\<close>, even beside NaN\<close>
  "hypot PosInf y = PosInf"
| "hypot NegInf y = PosInf"
| "hypot x PosInf = PosInf"
| "hypot x NegInf = PosInf"
| "hypot NaN y = NaN"
| "hypot x NaN = NaN"
| "hypot (Num a) (Num b) = num (sqrt (a * a + b * b))"

fun js_truthy :: "jsnum \<Rightarrow> bool" where
  \<comment> \<open>a number in a condition: zero and NaN count as false\<close>
  "js_truthy (Num a) = (a \<noteq> 0)"
| "js_truthy NaN = False"
| "js_truthy x = True"

subsection \<open>Gestures\<close>

text \<open>
  The coordinates and deltas that an event carries are finite doubles, given by their
  values. \<open>extent\<close> is \<^verbatim>\<open>Math.max(c.clientWidth, c.clientHeight)\<close> at the time of the
  event.
\<close>

record interaction =
  rotation :: jsnum
  zoom :: jsnum
  colorOffset :: jsnum
  dragging :: bool
  lastX :: jsnum
  lastY :: jsnum
  pinchDist :: jsnum

definition initialInteraction :: interaction where
  "initialInteraction =
     \<lparr>rotation = Num 0, zoom = Num 1, colorOffset = Num 0, dragging = False, lastX = Num 0,
      lastY = Num 0, pinchDist = Num 0\<rparr>"

datatype gesture =
    PointerDown real real
  | PointerMove real real
  | PointerUp
  | PointerCancel
  | Wheel real
  | Click
  | TouchStart "(real \<times> real) list"
  | TouchMove "(real \<times> real) list" real
  | TouchEnd

definition clampZoom :: "jsnum \<Rightarrow> jsnum" where
  \<comment> \<open>\<^verbatim>\<open>Math.max(0.18, Math.min(6.0, z))\<close>\<close>
  "clampZoom z = js_max (Num 0.18) (js_min (Num 6.0) z)"

definition zoomInRange :: "jsnum \<Rightarrow> bool" where
  \<comment> \<open>a number in the interval of the clamp\<close>
  "zoomInRange z = (case z of Num r \<Rightarrow> 0.18 \<le> r \<and> r \<le> 6.0 | _ \<Rightarrow> False)"

definition rotateBy :: "jsnum \<Rightarrow> real \<Rightarrow> jsnum \<Rightarrow> jsnum" where
  \<comment> \<open>\<^verbatim>\<open>rotation += (dx / Math.max(c.clientWidth, c.clientHeight)) * Math.PI * 1.1\<close>\<close>
  "rotateBy dx extent rot =
     js_add rot (js_mul (js_mul (js_div dx (Num extent)) (Num pi)) (Num 1.1))"

definition pinchDistance :: "(real \<times> real) list \<Rightarrow> jsnum" where
  \<comment> \<open>\<^verbatim>\<open>Math.hypot\<close> of the differences of the two touches' coordinates\<close>
  "pinchDistance ts =
     hypot (js_sub (Num (fst (ts ! 0))) (Num (fst (ts ! 1))))
           (js_sub (Num (snd (ts ! 0))) (Num (snd (ts ! 1))))"

fun handleGesture :: "interaction \<Rightarrow> gesture \<Rightarrow> interaction" where
  "handleGesture s (PointerDown x y) = s\<lparr>dragging := True, lastX := Num x, lastY := Num y\<rparr>"
| "handleGesture s (PointerMove x extent) =
     (if \<not> dragging s then s
      else s\<lparr>lastX := Num x,
             rotation := rotateBy (js_sub (Num x) (lastX s)) extent (rotation s)\<rparr>)"
| "handleGesture s PointerUp = s\<lparr>dragging := False\<rparr>"
| "handleGesture s PointerCancel = s\<lparr>dragging := False\<rparr>"
| "handleGesture s (Wheel deltaY) =
     s\<lparr>zoom := clampZoom (js_mul (zoom s) (js_sub (Num 1) (js_mul (Num deltaY) (Num 0.0018))))\<rparr>"
| "handleGesture s Click = s\<lparr>colorOffset := js_add (colorOffset s) (Num 0.7)\<rparr>"
| "handleGesture s (TouchStart ts) =
     (if length ts = 2 then s\<lparr>pinchDist := pinchDistance ts\<rparr>
      else if length ts = 1
      then s\<lparr>dragging := True, lastX := Num (fst (ts ! 0)), lastY := Num (snd (ts ! 0))\<rparr>
      else s)"
| "handleGesture s (TouchMove ts extent) =
     (if length ts = 2 \<and> js_truthy (pinchDist s)
      then (let nd = pinchDistance ts; scale = js_div nd (pinchDist s)
            in s\<lparr>zoom := clampZoom (js_mul (zoom s) scale), pinchDist := nd\<rparr>)
      else if length ts = 1 \<and> dragging s
      then s\<lparr>lastX := Num (fst (ts ! 0)),
             rotation := rotateBy (js_sub (Num (fst (ts ! 0))) (lastX s)) extent (rotation s)\<rparr>
      else s)"
| "handleGesture s TouchEnd = s\<lparr>dragging := False, pinchDist := Num 0\<rparr>"

definition handleGestures :: "gesture list \<Rightarrow> interaction" where
  \<comment> \<open>the state after a sequence of events, from the state set at engine init\<close>
  "handleGestures evs = foldl handleGesture initialInteraction evs"

definition farApart :: "(real \<times> real) list" where
  \<comment> \<open>two touches, at \<^verbatim>\<open>clientX = 2**1023\<close> and \<^verbatim>\<open>clientX = -(2**1023)\<close>, both at
      \<^verbatim>\<open>clientY = 0\<close>\<close>
  "farApart = [(2 ^ 1023, 0), (- (2 ^ 1023), 0)]"

section \<open>Notions used in the proofs\<close>

text \<open>
  A pattern without \<^verbatim>\<open>^\<close> matches at a position whatever text is put far in front of
  it, as long as the character just before the position stays of the same kind;
  \<open>shift\<close> puts text in front of a matcher state. \<open>retextureFrom\<close> is the
  replacement of \<^verbatim>\<open>texture2D(\<close> read from a position inside the text.
\<close>

fun bol_free :: "regex \<Rightarrow> bool" where
  "bol_free Bol = False"
| "bol_free (Seq p q) = (bol_free p \<and> bol_free q)"
| "bol_free (Alt p q) = (bol_free p \<and> bol_free q)"
| "bol_free (Opt p) = bol_free p"
| "bol_free (Group n p) = bol_free p"
| "bol_free _ = True"

definition shift :: "string \<Rightarrow> mstate \<Rightarrow> mstate" where
  "shift q st = (case st of (g, b, r) \<Rightarrow> (g, b @ q, r))"

definition retextureFrom :: "string \<Rightarrow> string \<Rightarrow> string" where
  "retextureFrom b s =
     concat (map (\<lambda>p. case p of Keep c \<Rightarrow> [c] | Hit m g \<Rightarrow> ''texture('')
                 (rx_scan False rx_texture2D b s))"

text \<open>
  \<open>outcome Q E r\<close>: the run \<open>r\<close> returned a value with \<open>Q\<close> or threw something with
  \<open>E\<close>. A plain value is one that is not an object. \<open>finiteTouches\<close>: the distance
  between the two touches of a touch event did not overflow.
\<close>

definition outcome ::
  "(jsval \<Rightarrow> bool) \<Rightarrow> (thrown \<Rightarrow> bool) \<Rightarrow> jsval completion \<times> trace \<Rightarrow> bool" where
  "outcome Q E r = (case fst r of Inl e \<Rightarrow> E e | Inr v \<Rightarrow> Q v)"

fun is_string :: "jsval \<Rightarrow> bool" where
  "is_string (JStr s) = True"
| "is_string _ = False"

fun is_TypeError :: "thrown \<Rightarrow> bool" where
  "is_TypeError (TypeError m) = True"
| "is_TypeError _ = False"

definition plain :: "jsval \<Rightarrow> bool" where
  "plain v = (\<not> is_object v)"

definition never :: "thrown \<Rightarrow> bool" where
  "never e = False"

text \<open>
  \<open>runPatches fs v\<close> applies the patches \<open>fs\<close> to \<open>v\<close> one after the other and stops at
  the first that throws; \<open>patchesFor err\<close> are the six patches of a diagnostic line, in
  the order of the source.
\<close>

fun runPatches :: "patch list \<Rightarrow> patch" where
  "runPatches [] v = (Inr v, [])"
| "runPatches (f # fs) v =
     (case f v of
        (Inl e, tr) \<Rightarrow> (Inl e, tr)
      | (Inr v', tr) \<Rightarrow> (case runPatches fs v' of (r, tr') \<Rightarrow> (r, tr @ tr')))"

definition patchesFor :: "string \<Rightarrow> patch list" where
  "patchesFor err =
     [semicolonPatch err, undeclaredPatch err, implicitPatch err, texturePatch err,
      mainPatch err, unmatchedPatch err]"

definition finiteTouches :: "gesture \<Rightarrow> bool" where
  "finiteTouches ev =
     (case ev of
        TouchStart ts \<Rightarrow> pinchDistance ts \<noteq> PosInf
      | TouchMove ts extent \<Rightarrow> pinchDistance ts \<noteq> PosInf
      | _ \<Rightarrow> True)"

section \<open>Evaluating the character classes\<close>

text \<open>
  The classes are defined by character codes; for evaluation each is also given by the
  bits of the character, least significant bit first.
\<close>

lemma is_digit_Char [code]:
  "is_digit (Char b0 b1 b2 b3 b4 b5 b6 b7) =
     (b4 \<and> b5 \<and> \<not> b6 \<and> \<not> b7 \<and> (\<not> b3 \<or> (\<not> b2 \<and> \<not> b1)))"
  by (cases b0; cases b1; cases b2; cases b3; cases b4; cases b5; cases b6; cases b7;
      simp add: is_digit_def)

lemma is_ident_start_Char [code]:
  "is_ident_start (Char b0 b1 b2 b3 b4 b5 b6 b7) =
     (\<not> b7 \<and> b6 \<and>
      (((b0 \<or> b1 \<or> b2 \<or> b3 \<or> b4) \<and> \<not> (b4 \<and> b3 \<and> (b2 \<or> (b1 \<and> b0))))
       \<or> (\<not> b5 \<and> b4 \<and> b3 \<and> b2 \<and> b1 \<and> b0)))"
  by (cases b0; cases b1; cases b2; cases b3; cases b4; cases b5; cases b6; cases b7;
      simp add: is_ident_start_def)

lemma is_space_Char [code]:
  "is_space (Char b0 b1 b2 b3 b4 b5 b6 b7) =
     ((\<not> b7 \<and> \<not> b6 \<and> \<not> b5 \<and> \<not> b4 \<and> b3 \<and> ((\<not> b2 \<and> (b1 \<or> b0)) \<or> (b2 \<and> \<not> b1)))
      \<or> (\<not> b6 \<and> b5 \<and> \<not> b4 \<and> \<not> b3 \<and> \<not> b2 \<and> \<not> b1 \<and> \<not> b0))"
  by (cases b0; cases b1; cases b2; cases b3; cases b4; cases b5; cases b6; cases b7;
      simp add: is_space_def)

lemma canonicalize_False [code]: "canonicalize False c = c"
  by (simp add: canonicalize_def)

lemma canonicalize_True_Char [code]:
  "canonicalize True (Char b0 b1 b2 b3 b4 b5 b6 b7) =
     (if \<not> b7 \<and> b6 \<and> b5 \<and> (b0 \<or> b1 \<or> b2 \<or> b3 \<or> b4)
          \<and> \<not> (b4 \<and> b3 \<and> (b2 \<or> (b1 \<and> b0)))
      then Char b0 b1 b2 b3 b4 False b6 b7 else Char b0 b1 b2 b3 b4 b5 b6 b7)"
  by (cases b0; cases b1; cases b2; cases b3; cases b4; cases b5; cases b6; cases b7;
      simp add: canonicalize_def)

section \<open>The repair of a shader that has a main and no precision\<close>

text \<open>
  C1. For the source \<^verbatim>\<open>void main(){ gl_FragColor = vec4(1.0); }\<close> the claim expects the
  output of \<^verbatim>\<open>smartFixShader\<close> to start with the line \<^verbatim>\<open>precision mediump float;\<close> and
  to have no second \<^verbatim>\<open>main\<close>. The precision line is put in front of the source first,
  and then the six missing uniform declarations are put in front of it one by one: the
  output has one \<^verbatim>\<open>main\<close>, but it starts with \<^verbatim>\<open>uniform float uColorOffset;\<close> and the
  precision line is its seventh line, after declarations of type float.
\<close>

theorem smartFixShader_precision_after_uniforms:
  "fst (smartFixShader (JStr ''void main(){ gl_FragColor = vec4(1.0); }'')) =
     Inr (JStr (''uniform float uColorOffset;'' @ [CHR 0x0A] @
                ''uniform float uZoom;'' @ [CHR 0x0A] @
                ''uniform float uRotate;'' @ [CHR 0x0A] @
                ''uniform sampler2D uSampler;'' @ [CHR 0x0A] @
                ''uniform vec2 uResolution;'' @ [CHR 0x0A] @
                ''uniform float uTime;'' @ [CHR 0x0A] @
                ''precision mediump float;'' @ [CHR 0x0A] @
                ''void main(){ gl_FragColor = vec4(1.0); }''))"
  by code_simp

section \<open>A failed link\<close>

text \<open>
  C2. The claim expects a failed compile or link to leave the program that was running
  untouched. A shader that does not compile does: \<^verbatim>\<open>compileAndRun\<close> throws before it
  touches \<^verbatim>\<open>webgl.program\<close>. A shader that compiles and then fails to link does not: the
  previous program is deleted and \<^verbatim>\<open>webgl.program\<close> set to \<^verbatim>\<open>null\<close> before the link is
  attempted. Here program 1 is running, the fragment shader reads a varying that the
  vertex stage never writes, and the link fails; the log entry and the status label are
  as claimed, the running program is gone.
\<close>

theorem compileAndRun_link_failure_deletes_program:
  "compileAndRun
     \<lparr>compileInfo = (\<lambda>kind src. None), linkInfo = (\<lambda>v f. Some ''varying vUv not written'')\<rparr>
     5 ''precision mediump float; varying vec2 vUv; void main(){ gl_FragColor = vec4(vUv,0.0,1.0); }''
     \<lparr>gl = True, program = Some 1, animReq = Some 2, startTime = 0, livePrograms = [1],
      nextId = 3, compileLog = [], statusLabel = ''Status: Preview running''\<rparr>
   = \<lparr>gl = True, program = None, animReq = Some 2, startTime = 0, livePrograms = [],
      nextId = 4,
      compileLog = [(''ERR'', ''Compile/Link failed: Link error: varying vUv not written'')],
      statusLabel = ''Status: Compile Error''\<rparr>"
  by (simp add: compileAndRun_def compileShader_def compileFailed_def deletePrevious_def
        logCompile_def Let_def)

text \<open>The sibling path: when the fragment shader does not compile, nothing but the log
  and the status label changes.\<close>

lemma compileAndRun_compile_failure:
  "gl w \<Longrightarrow> compileInfo d VERTEX_SHADER vs = None
   \<Longrightarrow> compileInfo d FRAGMENT_SHADER src = Some info
   \<Longrightarrow> compileAndRun d now src w =
       w\<lparr>compileLog := compileLog w @ [(''ERR'', ''Compile/Link failed: '' @ info)],
         statusLabel := ''Status: Compile Error''\<rparr>"
  by (simp add: compileAndRun_def compileShader_def compileFailed_def logCompile_def)

section \<open>Division guards\<close>

text \<open>
  C5. The claim expects \<^verbatim>\<open>/(X)\<close> to become \<^verbatim>\<open>/ max(X, 0.000001)\<close>. The pattern takes the
  opening parenthesis without capturing it and captures the closing one, which the
  replacement writes back: the opening parenthesis is lost and the closing one is kept,
  so \<^verbatim>\<open>a /(b)\<close> becomes \<^verbatim>\<open>a / max(b, 0.000001))\<close>.
\<close>

theorem guardDivisions_drops_open_parenthesis:
  "fst (guardDivisions ''a /(b)'') = ''a / max(b, 0.000001))''"
  by code_simp

text \<open>The two examples of the claim hold.\<close>

lemma guardDivisions_examples:
  "fst (guardDivisions ''a / b'') = ''a / max(b, 0.000001)''"
  "fst (guardDivisions ''a / 2.0'') = ''a / 2.0''"
  by code_simp+

section \<open>Integer literals\<close>

text \<open>
  C6. The claim expects the remediation of an implicit int-to-float conversion to append
  \<^verbatim>\<open>.0\<close> to integer literals and to leave float literals intact. The pattern
  \<^verbatim>\<open>\b([0-9]+)\b\<close> also matches the digits on either side of a decimal point, so the
  float literal \<^verbatim>\<open>1.0\<close> becomes \<^verbatim>\<open>1.0.0.0\<close>.
\<close>

theorem implicitPatch_breaks_float_literal:
  "implicitPatch ''cannot convert'' (JStr ''float x = 1.0;'') =
     (Inr (JStr ''float x = 1.0.0.0;''),
      logMain ''Converted integer literals to floats (heuristic)'')"
  by code_simp

text \<open>On an integer literal the patch does what its log line says.\<close>

lemma intsToFloats_integer_literal: "intsToFloats ''float x = 1;'' = ''float x = 1.0;''"
  by code_simp

section \<open>The zoom and its interval\<close>

text \<open>
  Every handler that writes the zoom writes \<^verbatim>\<open>Math.max(0.18, Math.min(6.0, ...))\<close>, and
  both \<^verbatim>\<open>Math.min\<close> and \<^verbatim>\<open>Math.max\<close> return NaN for a NaN argument. So the zoom is in
  the interval or NaN.
\<close>

lemma clampZoom_NaN: "clampZoom z = NaN \<longleftrightarrow> z = NaN"
  by (cases z) (simp_all add: clampZoom_def)

lemma clampZoom_range: "z \<noteq> NaN \<Longrightarrow> zoomInRange (clampZoom z)"
  by (cases z) (simp_all add: clampZoom_def zoomInRange_def)

lemma num_not_NaN: "num r \<noteq> NaN"
  by (simp add: num_def)

lemma js_sub_Num_not_NaN: "js_sub (Num a) (Num b) \<noteq> NaN"
  by (simp add: num_not_NaN)

lemma hypot_not_NaN: "x \<noteq> NaN \<Longrightarrow> y \<noteq> NaN \<Longrightarrow> hypot x y \<noteq> NaN"
  by (cases x; cases y) (simp_all add: num_not_NaN)

lemma pinchDistance_not_NaN: "pinchDistance ts \<noteq> NaN"
  unfolding pinchDistance_def by (intro hypot_not_NaN js_sub_Num_not_NaN)

lemma wheel_factor_not_NaN: "js_sub (Num 1) (js_mul (Num d) (Num c)) \<noteq> NaN"
  by (simp add: num_def)

lemma js_mul_zoom_not_NaN:
  "zoomInRange z \<Longrightarrow> x \<noteq> NaN \<Longrightarrow> js_mul z x \<noteq> NaN"
  by (cases z; cases x) (simp_all add: zoomInRange_def num_not_NaN signed_inf_def)

lemma zoomInRange_wheel:
  "zoomInRange (zoom s) \<Longrightarrow> zoomInRange (zoom (handleGesture s (Wheel d)))"
  by (simp add: clampZoom_range js_mul_zoom_not_NaN wheel_factor_not_NaN del: js_sub.simps js_mul.simps)

lemma clampZoom_cases: "zoomInRange (clampZoom z) \<or> clampZoom z = NaN"
  by (cases z) (simp_all add: clampZoom_def zoomInRange_def)

lemma zoomInRange_or_NaN_step:
  "zoomInRange (zoom s) \<or> zoom s = NaN \<Longrightarrow>
   zoomInRange (zoom (handleGesture s ev)) \<or> zoom (handleGesture s ev) = NaN"
  by (cases ev) (simp_all add: clampZoom_cases Let_def)

lemma zoomInRange_or_NaN_foldl:
  "zoomInRange (zoom s) \<or> zoom s = NaN \<Longrightarrow>
   zoomInRange (zoom (foldl handleGesture s evs)) \<or> zoom (foldl handleGesture s evs) = NaN"
proof (induction evs arbitrary: s)
  case Nil
  then show ?case by simp
next
  case (Cons ev evs)
  have "zoomInRange (zoom (handleGesture s ev)) \<or> zoom (handleGesture s ev) = NaN"
    using Cons.prems by (rule zoomInRange_or_NaN_step)
  then show ?case using Cons.IH by simp
qed

lemma zoom_in_range_or_NaN:
  "zoomInRange (zoom (handleGestures evs)) \<or> zoom (handleGestures evs) = NaN"
  unfolding handleGestures_def
  by (rule zoomInRange_or_NaN_foldl) (simp add: initialInteraction_def zoomInRange_def)

text \<open>Once the zoom is NaN, no event brings it back.\<close>

lemma js_mul_NaN: "js_mul NaN x = NaN"
  by (cases x) simp_all

lemma zoom_NaN_step: "zoom s = NaN \<Longrightarrow> zoom (handleGesture s ev) = NaN"
  by (cases ev) (simp_all add: clampZoom_NaN Let_def)

lemma zoom_NaN_foldl: "zoom s = NaN \<Longrightarrow> zoom (foldl handleGesture s evs) = NaN"
  by (induction evs arbitrary: s) (simp_all add: zoom_NaN_step del: handleGesture.simps)

text \<open>
  Wheel events alone keep the zoom in the interval, whatever their deltas: the wheel
  handler cannot produce NaN.
\<close>

lemma zoomInRange_wheels:
  "zoomInRange (zoom s) \<Longrightarrow> zoomInRange (zoom (foldl handleGesture s (map Wheel ds)))"
  by (induction ds arbitrary: s) (simp_all add: zoomInRange_wheel del: handleGesture.simps)

lemma wheel_keeps_zoom_clamped: "zoomInRange (zoom (handleGestures (map Wheel ds)))"
  unfolding handleGestures_def
  by (rule zoomInRange_wheels) (simp add: initialInteraction_def zoomInRange_def)

text \<open>
  The pinch handler produces NaN only from the quotient of two infinite distances: as long
  as the distance between the two touches does not overflow, the zoom stays in the
  interval.
\<close>

lemma overflowAt_pos: "0 < overflowAt"
  by (simp add: overflowAt_def)

lemma num_sqrt_cases:
  "num (sqrt (a * a + b * b)) = PosInf \<or> (\<exists>d. num (sqrt (a * a + b * b)) = Num d)"
proof -
  have "0 \<le> sqrt (a * a + b * b)" by simp
  then have "- overflowAt < sqrt (a * a + b * b)"
    using overflowAt_pos by linarith
  then show ?thesis by (simp add: num_def)
qed

lemma hypot_cases: "x \<noteq> NaN \<Longrightarrow> y \<noteq> NaN \<Longrightarrow> hypot x y = PosInf \<or> (\<exists>d. hypot x y = Num d)"
  by (cases x; cases y) (simp_all add: num_sqrt_cases)

lemma pinchDistance_cases: "pinchDistance ts = PosInf \<or> (\<exists>d. pinchDistance ts = Num d)"
  unfolding pinchDistance_def by (intro hypot_cases js_sub_Num_not_NaN)

lemma finite_pinch_step:
  assumes "zoomInRange (zoom s)" and "\<exists>d. pinchDist s = Num d" and "finiteTouches ev"
  shows "zoomInRange (zoom (handleGesture s ev)) \<and> (\<exists>d. pinchDist (handleGesture s ev) = Num d)"
proof (cases ev)
  case (Wheel d)
  then show ?thesis using assms(1,2) zoomInRange_wheel[of s d] by simp
next
  case (TouchStart ts)
  then show ?thesis using assms pinchDistance_cases[of ts] by (auto simp: finiteTouches_def)
next
  case (TouchMove ts extent)
  obtain n where n: "pinchDistance ts = Num n"
    using assms(3) TouchMove pinchDistance_cases[of ts] by (auto simp: finiteTouches_def)
  obtain d where d: "pinchDist s = Num d" using assms(2) by blast
  have "zoomInRange (clampZoom (js_mul (zoom s) (js_div (Num n) (Num d))))" if "d \<noteq> 0"
    using that assms(1) by (intro clampZoom_range js_mul_zoom_not_NaN) (simp_all add: num_not_NaN)
  then show ?thesis using TouchMove n d assms(1) by (auto simp: Let_def)
qed (use assms in auto)

lemma finite_pinch_foldl:
  "zoomInRange (zoom s) \<Longrightarrow> \<exists>d. pinchDist s = Num d \<Longrightarrow> list_all finiteTouches evs \<Longrightarrow>
   zoomInRange (zoom (foldl handleGesture s evs))"
proof (induction evs arbitrary: s)
  case Nil
  then show ?case by simp
next
  case (Cons ev evs)
  have "zoomInRange (zoom (handleGesture s ev)) \<and> (\<exists>d. pinchDist (handleGesture s ev) = Num d)"
    using Cons.prems by (intro finite_pinch_step) simp_all
  then show ?case using Cons.IH Cons.prems(3) by simp
qed

lemma zoom_clamped_for_finite_pinches:
  "list_all finiteTouches evs \<Longrightarrow> zoomInRange (zoom (handleGestures evs))"
  unfolding handleGestures_def
  by (rule finite_pinch_foldl) (simp_all add: initialInteraction_def zoomInRange_def)

lemma pinchDistance_farApart: "pinchDistance farApart = PosInf"
  by (simp add: farApart_def pinchDistance_def num_def overflowAt_def)

text \<open>
  C9. The claim expects the zoom to lie in \<open>[0.18, 6.0]\<close> after any sequence of wheel and
  pinch events, of any magnitude. A \<^verbatim>\<open>touchstart\<close> with two touches at
  \<^verbatim>\<open>clientX = 2**1023\<close> and \<^verbatim>\<open>clientX = -(2**1023)\<close> stores the distance \<^verbatim>\<open>Infinity\<close>;
  the \<^verbatim>\<open>touchmove\<close> that follows with the same touches passes the test on \<^verbatim>\<open>pinchDist\<close>,
  computes the scale \<^verbatim>\<open>Infinity / Infinity\<close>, which is NaN, and the clamp returns NaN.
  The zoom is then outside the interval, and it stays NaN whatever events follow.
\<close>

theorem pinch_of_infinite_distance_gives_NaN:
  "zoom (handleGestures [TouchStart farApart, TouchMove farApart extent]) = NaN
   \<and> zoomInRange (zoom (handleGestures [TouchStart farApart, TouchMove farApart extent])) = False
   \<and> zoom (handleGestures ([TouchStart farApart, TouchMove farApart extent] @ evs)) = NaN"
proof -
  have a: "zoom (handleGestures [TouchStart farApart, TouchMove farApart extent]) = NaN"
    by (simp add: handleGestures_def initialInteraction_def pinchDistance_farApart clampZoom_def)
       (simp add: farApart_def)
  have "zoom (handleGestures ([TouchStart farApart, TouchMove farApart extent] @ evs)) = NaN"
    using a zoom_NaN_foldl unfolding handleGestures_def foldl_append by blast
  with a show ?thesis by (simp add: zoomInRange_def)
qed

section \<open>Searching for a match\<close>

lemma rx_exec_from_None_iff:
  "rx_exec_from ic r b s = None \<longleftrightarrow> (\<forall>u v. s = u @ v \<longrightarrow> rx_run ic r ([], rev u @ b, v) = [])"
proof (induction s arbitrary: b)
  case Nil
  then show ?case by (simp split: list.splits)
next
  case (Cons c cs)
  show ?case
  proof (cases "rx_run ic r ([], b, c # cs)")
    case Nil
    have "rx_exec_from ic r b (c # cs) = rx_exec_from ic r (c # b) cs"
      using Nil by simp
    also have "\<dots> = None \<longleftrightarrow> (\<forall>u v. cs = u @ v \<longrightarrow> rx_run ic r ([], rev u @ c # b, v) = [])"
      by (rule Cons.IH)
    also have "\<dots> \<longleftrightarrow> (\<forall>u v. c # cs = u @ v \<longrightarrow> rx_run ic r ([], rev u @ b, v) = [])"
    proof
      assume a: "\<forall>u v. cs = u @ v \<longrightarrow> rx_run ic r ([], rev u @ c # b, v) = []"
      show "\<forall>u v. c # cs = u @ v \<longrightarrow> rx_run ic r ([], rev u @ b, v) = []"
      proof (intro allI impI)
        fix u v assume e: "c # cs = u @ v"
        show "rx_run ic r ([], rev u @ b, v) = []"
        proof (cases u)
          case Nil
          with e \<open>rx_run ic r ([], b, c # cs) = []\<close> show ?thesis by simp
        next
          case (Cons x u')
          with e have "x = c" "cs = u' @ v" by simp_all
          with a Cons show ?thesis by simp
        qed
      qed
    next
      assume a: "\<forall>u v. c # cs = u @ v \<longrightarrow> rx_run ic r ([], rev u @ b, v) = []"
      show "\<forall>u v. cs = u @ v \<longrightarrow> rx_run ic r ([], rev u @ c # b, v) = []"
      proof (intro allI impI)
        fix u v assume "cs = u @ v"
        then have "c # cs = (c # u) @ v" by simp
        with a have "rx_run ic r ([], rev (c # u) @ b, v) = []" by blast
        then show "rx_run ic r ([], rev u @ c # b, v) = []" by simp
      qed
    qed
    finally show ?thesis .
  next
    case (Cons st sts)
    then have A: "rx_exec_from ic r b (c # cs) \<noteq> None" by simp
    have "c # cs = [] @ (c # cs) \<and> rx_run ic r ([], rev [] @ b, c # cs) \<noteq> []"
      using Cons by simp
    then have B: "\<not> (\<forall>u v. c # cs = u @ v \<longrightarrow> rx_run ic r ([], rev u @ b, v) = [])"
      by blast
    from A B show ?thesis by blast
  qed
qed

lemma rx_test_iff:
  "rx_test ic r s \<longleftrightarrow> (\<exists>u v. s = u @ v \<and> rx_run ic r ([], rev u, v) \<noteq> [])"
  using rx_exec_from_None_iff[of ic r "[]" s] by (auto simp: rx_test_def)

lemma rx_main_at_fallback:
  "rx_run False rx_main ([], CHR 0x0A # b, ''void main(){ gl_FragColor = vec4(0.0); }'') \<noteq> []"
  by (simp add: rx_main_def Plus_def word_at_def is_word_def is_digit_def is_ident_start_def
        is_space_def canonicalize_False)

lemma rx_main_fallback: "rx_test False rx_main (s @ FALLBACK_MAIN)"
proof -
  have "s @ FALLBACK_MAIN = (s @ [CHR 0x0A]) @ ''void main(){ gl_FragColor = vec4(0.0); }''"
    by (simp add: FALLBACK_MAIN_def)
  moreover have "rx_run False rx_main
      ([], rev (s @ [CHR 0x0A]), ''void main(){ gl_FragColor = vec4(0.0); }'') \<noteq> []"
    using rx_main_at_fallback[of "rev s"] by simp
  ultimately show ?thesis unfolding rx_test_iff by blast
qed

lemma ensureMainPresent_has_main: "rx_test False rx_main (fst (ensureMainPresent s))"
  by (simp add: ensureMainPresent_def rx_main_fallback)

section \<open>The main-presence step\<close>

text \<open>
  C4. The claim expects the fallback main to write an opaque black fragment. What is
  appended is \<^verbatim>\<open>void main(){ gl_FragColor = vec4(0.0); }\<close>: every component of the
  colour is 0.0, the alpha too, so the fragment is black and fully transparent. On the
  empty source, which has no \<^verbatim>\<open>void main(\<close>:
\<close>

theorem fallback_main_not_opaque:
  "\<not> rx_test False rx_main [] \<and>
   fst (ensureMainPresent []) = FALLBACK_MAIN \<and>
   fragColorWritten (fst (ensureMainPresent [])) = Some [0, 0, 0, 0] \<and>
   fragColorWritten (fst (ensureMainPresent [])) \<noteq> Some [0, 0, 0, 1]"
  by code_simp

lemma fragColorWritten_FALLBACK_MAIN: "fragColorWritten FALLBACK_MAIN = Some [0, 0, 0, 0]"
  by code_simp

text \<open>
  C4, as amended. The step leaves a source with a match of \<^verbatim>\<open>\bvoid\s+main\s*\(\<close>
  as it is and appends the fallback to any other source; after the step the source
  always has such a match; the fallback writes \<^verbatim>\<open>vec4(0.0)\<close>, black with alpha 0.
\<close>

theorem ensureMainPresent_appends_transparent_fallback:
  "fst (ensureMainPresent s) = (if rx_test False rx_main s then s else s @ FALLBACK_MAIN)
   \<and> rx_test False rx_main (fst (ensureMainPresent s))
   \<and> FALLBACK_MAIN = [CHR 0x0A] @ ''void main(){ gl_FragColor = vec4(0.0); }''
   \<and> fragColorWritten FALLBACK_MAIN = Some [0, 0, 0, 0]"
  using ensureMainPresent_has_main[of s] fragColorWritten_FALLBACK_MAIN
  by (simp add: ensureMainPresent_def FALLBACK_MAIN_def)

section \<open>Exceptions\<close>

lemma fst_andThen: "fst (andThen acc step) = fst (step (fst acc))"
  by (simp add: andThen_def split: prod.splits)

lemma repairSteps_ends_with_main: "\<exists>x. fst (repairSteps s) = fst (ensureMainPresent x)"
  unfolding repairSteps_def by (simp add: fst_andThen) blast

lemma repairSteps_has_main: "rx_test False rx_main (fst (repairSteps s))"
  using repairSteps_ends_with_main[of s] ensureMainPresent_has_main by auto

text \<open>
  The patches of the selected diagnostic lines are applied in order, six for each line,
  and the first patch that throws ends the sequence.
\<close>

lemma thenPatch_Inl: "thenPatch (Inl e, tr) f = (Inl e, tr)"
  by (simp add: thenPatch_def)

lemma thenPatch_Inr: "thenPatch (Inr v, tr) f = (fst (f v), tr @ snd (f v))"
  by (simp add: thenPatch_def split: prod.splits)

lemma foldl_thenPatch_thrown: "foldl thenPatch (Inl e, tr) fs = (Inl e, tr)"
  by (induction fs) (simp_all add: thenPatch_Inl)

lemma foldl_thenPatch_runPatches:
  "foldl thenPatch (Inr v, tr) fs = (case runPatches fs v of (r, tr') \<Rightarrow> (r, tr @ tr'))"
proof (induction fs arbitrary: v tr)
  case Nil
  then show ?case by simp
next
  case (Cons f fs)
  obtain r t where f: "f v = (r, t)" by (cases "f v")
  show ?case
  proof (cases r)
    case (Inl e)
    with f show ?thesis by (simp add: thenPatch_Inr foldl_thenPatch_thrown)
  next
    case (Inr v')
    with f show ?thesis by (simp add: thenPatch_Inr Cons.IH split: prod.splits)
  qed
qed

lemma runPatches_append:
  "runPatches (fs @ gs) v =
     (case runPatches fs v of
        (Inl e, tr) \<Rightarrow> (Inl e, tr)
      | (Inr v', tr) \<Rightarrow> (case runPatches gs v' of (r, tr') \<Rightarrow> (r, tr @ tr')))"
proof (induction fs arbitrary: v)
  case Nil
  then show ?case by (simp split: prod.splits)
next
  case (Cons f fs)
  then show ?case by (simp split: prod.splits sum.splits)
qed

lemma applyDiagnostic_runPatches: "applyDiagnostic err v = runPatches (patchesFor err) v"
  unfolding applyDiagnostic_def patchesFor_def
  by (simp only: foldl_thenPatch_runPatches) (simp split: prod.splits)

lemma applyDiagnostics_runPatches:
  "applyDiagnostics errs v = runPatches (concat (map patchesFor errs)) v"
proof -
  have "runPatches (map applyDiagnostic errs) v = runPatches (concat (map patchesFor errs)) v"
  proof (induction errs arbitrary: v)
    case Nil
    then show ?case by simp
  next
    case (Cons err errs)
    then show ?case
      by (simp add: runPatches_append applyDiagnostic_runPatches split: prod.splits sum.splits)
  qed
  then show ?thesis
    by (simp add: applyDiagnostics_def foldl_thenPatch_runPatches split: prod.splits)
qed

text \<open>
  What the patches of \<^verbatim>\<open>parseErrorsAndFix\<close> do to the kind of value they work on. On a
  string no patch throws and each gives a string. On a value that is not an object a patch
  gives such a value again, or throws a \<^verbatim>\<open>TypeError\<close> of the engine.
\<close>

lemma receiver_string: "is_string v \<Longrightarrow> \<exists>s. receiver x m v = Inr s"
  by (cases v) simp_all

lemma receiver_plain:
  "plain v \<Longrightarrow> (\<exists>s. v = JStr s \<and> receiver x m v = Inr s) \<or> (\<exists>t. receiver x m v = Inl (TypeError t))"
  by (cases v) (simp_all add: plain_def)

lemma patches_string:
  assumes "is_string v"
  shows "outcome is_string never (semicolonPatch err v)"
    and "outcome is_string never (undeclaredPatch err v)"
    and "outcome is_string never (implicitPatch err v)"
    and "outcome is_string never (texturePatch err v)"
    and "outcome is_string never (mainPatch err v)"
    and "outcome is_string never (unmatchedPatch err v)"
  using assms
  by (cases v; simp add: outcome_def semicolonPatch_def undeclaredPatch_def implicitPatch_def
        texturePatch_def mainPatch_def unmatchedPatch_def unchanged_def Let_def
        split: option.splits prod.splits)+

lemma patches_plain:
  assumes "plain v"
  shows "outcome plain is_TypeError (semicolonPatch err v)"
    and "outcome plain is_TypeError (undeclaredPatch err v)"
    and "outcome plain is_TypeError (implicitPatch err v)"
    and "outcome plain is_TypeError (texturePatch err v)"
    and "outcome plain is_TypeError (mainPatch err v)"
    and "outcome plain is_TypeError (unmatchedPatch err v)"
  using assms
  by (cases v; simp add: plain_def outcome_def semicolonPatch_def undeclaredPatch_def implicitPatch_def
        texturePatch_def mainPatch_def unmatchedPatch_def unchanged_def Let_def
        split: option.splits prod.splits)+

lemma outcome_init: "Q v \<Longrightarrow> outcome Q E (Inr v, tr)"
  by (simp add: outcome_def)

lemma outcome_thenPatch:
  assumes "outcome Q E acc" and "\<And>v. Q v \<Longrightarrow> outcome Q E (f v)"
  shows "outcome Q E (thenPatch acc f)"
proof (cases acc)
  case (Pair res tr)
  show ?thesis
  proof (cases res)
    case (Inl e)
    with Pair assms(1) show ?thesis by (simp add: thenPatch_def outcome_def)
  next
    case (Inr v)
    with Pair assms(1) have "Q v" by (simp add: outcome_def)
    then have "outcome Q E (f v)" by (rule assms(2))
    with Pair Inr show ?thesis by (cases "f v") (simp add: thenPatch_def outcome_def)
  qed
qed

lemma outcome_foldl_thenPatch:
  assumes "\<And>f v. f \<in> set fs \<Longrightarrow> Q v \<Longrightarrow> outcome Q E (f v)" and "outcome Q E acc"
  shows "outcome Q E (foldl thenPatch acc fs)"
  using assms
proof (induction fs arbitrary: acc)
  case Nil
  then show ?case by simp
next
  case (Cons f fs)
  have "outcome Q E (thenPatch acc f)"
    using Cons.prems(2) by (rule outcome_thenPatch) (simp add: Cons.prems(1))
  then show ?case using Cons.IH Cons.prems(1) by simp
qed

lemma applyDiagnostic_string: "is_string v \<Longrightarrow> outcome is_string never (applyDiagnostic err v)"
  unfolding applyDiagnostic_def
  by (rule outcome_foldl_thenPatch) (auto simp: patches_string outcome_init)

lemma applyDiagnostic_plain: "plain v \<Longrightarrow> outcome plain is_TypeError (applyDiagnostic err v)"
  unfolding applyDiagnostic_def
  by (rule outcome_foldl_thenPatch) (auto simp: patches_plain outcome_init)

lemma applyDiagnostics_string: "is_string v \<Longrightarrow> outcome is_string never (applyDiagnostics errs v)"
  unfolding applyDiagnostics_def
  by (rule outcome_foldl_thenPatch) (auto simp: applyDiagnostic_string outcome_init)

lemma applyDiagnostics_plain: "plain v \<Longrightarrow> outcome plain is_TypeError (applyDiagnostics errs v)"
  unfolding applyDiagnostics_def
  by (rule outcome_foldl_thenPatch) (auto simp: applyDiagnostic_plain outcome_init)

lemma applyDiagnostics_of_string:
  "\<exists>p tr. applyDiagnostics errs (JStr s) = (Inr (JStr p), tr)"
proof -
  have "outcome is_string never (applyDiagnostics errs (JStr s))"
    by (rule applyDiagnostics_string) simp
  then show ?thesis
    by (cases "applyDiagnostics errs (JStr s)"; cases "fst (applyDiagnostics errs (JStr s))")
       (auto simp: outcome_def never_def elim: is_string.elims)
qed

text \<open>
  The \<^verbatim>\<open>catch\<close> block throws only when it reads \<^verbatim>\<open>message\<close> off a thrown \<^verbatim>\<open>null\<close> or
  \<^verbatim>\<open>undefined\<close>, and what it throws is a \<^verbatim>\<open>TypeError\<close>. Only an object argument can
  make a statement throw such a value.
\<close>

lemma receiver_Inr: "receiver x m v = Inr s \<Longrightarrow> v = JStr s"
  by (cases v) simp_all

lemma receiver_Thrown: "receiver x m v = Inl (Thrown w) \<Longrightarrow> v = JThrower w"
  by (cases v) simp_all

lemma or_empty_JStr [simp]: "or_empty (JStr s) = JStr s"
  by (simp add: or_empty_def)

lemma or_empty_object: "is_object (or_empty v) \<Longrightarrow> or_empty v = v"
  by (cases v) (auto simp: or_empty_def split: if_splits)

lemma errorText_Inl: "errorText e = Inl e' \<Longrightarrow> (\<exists>w. e = Thrown w) \<and> is_TypeError e'"
  by (cases e rule: errorText.cases) auto

lemma receiver_raise_object:
  assumes "receiver x m (or_empty v) = Inl e" and "errorText e = Inl e'"
  shows "is_object v"
proof -
  obtain w where "e = Thrown w" using errorText_Inl[OF assms(2)] by blast
  then have "or_empty v = JThrower w" using assms(1) by (simp add: receiver_Thrown)
  then show ?thesis using or_empty_object[of v] by (metis is_object.simps(1))
qed

lemma smartFixShader_string:
  "smartFixShader (JStr s) =
     (Inr (JStr (fst (repairSteps (normalizeNewlines s)))),
      logMain ''Starting smartFixShader pass'' @ snd (repairSteps (normalizeNewlines s))
        @ logMain ''smartFixShader done'')"
  by (simp add: smartFixShader_def split: prod.splits)

lemma smartFixShader_shapes:
  "(\<exists>s. or_empty code = JStr s \<and> smartFixShader code = smartFixShader (JStr s))
   \<or> (\<exists>e msg. receiver (''(code || '' @ dq @ dq @ '')'') ''replace'' (or_empty code) = Inl e
         \<and> errorText e = Inr msg
         \<and> smartFixShader code =
             (Inr code, logMain ''Starting smartFixShader pass''
                        @ logMainErr (''smartFixShader error: '' @ msg)))
   \<or> (\<exists>e e'. is_object code
         \<and> receiver (''(code || '' @ dq @ dq @ '')'') ''replace'' (or_empty code) = Inl e
         \<and> errorText e = Inl e'
         \<and> smartFixShader code = (Inl e', logMain ''Starting smartFixShader pass''))"
proof (cases "receiver (''(code || '' @ dq @ dq @ '')'') ''replace'' (or_empty code)")
  case (Inr s)
  then have "or_empty code = JStr s" by (rule receiver_Inr)
  moreover from this have "smartFixShader code = smartFixShader (JStr s)"
    by (simp add: smartFixShader_def)
  ultimately show ?thesis by blast
next
  case (Inl e)
  show ?thesis
  proof (cases "errorText e")
    case msg: (Inr msg)
    have "smartFixShader code =
             (Inr code, logMain ''Starting smartFixShader pass''
                        @ logMainErr (''smartFixShader error: '' @ msg))"
      using Inl msg by (simp add: smartFixShader_def caught_def)
    with Inl msg show ?thesis by blast
  next
    case e': (Inl e')
    have "smartFixShader code = (Inl e', logMain ''Starting smartFixShader pass'')"
      using Inl e' by (simp add: smartFixShader_def caught_def)
    moreover have "is_object code" using Inl e' by (rule receiver_raise_object)
    ultimately show ?thesis using Inl e' by blast
  qed
qed

lemma smartFixShader_raises_TypeError:
  "smartFixShader v = (Inl e, tr) \<Longrightarrow> is_TypeError e"
  using smartFixShader_shapes[of v] errorText_Inl
  by (auto simp: smartFixShader_string)

lemma smartFixShader_raise_caught:
  "smartFixShader v = (Inl e, tr) \<Longrightarrow> \<exists>msg. errorText e = Inr msg"
  using smartFixShader_raises_TypeError[of v e tr] by (cases e) auto

lemma applyDiagnostics_raise_object:
  assumes "applyDiagnostics errs code = (Inl e, tr)" and "errorText e = Inl e'"
  shows "is_object code"
proof (rule ccontr)
  assume "\<not> is_object code"
  then have "outcome plain is_TypeError (applyDiagnostics errs code)"
    by (intro applyDiagnostics_plain) (simp add: plain_def)
  then have "is_TypeError e" using assms(1) by (simp add: outcome_def)
  then show False using assms(2) by (cases e) auto
qed

lemma parseErrorsAndFix_string:
  "\<exists>p tr. applyDiagnostics (candidateErrors (diagnosticLines l)) (JStr s) = (Inr (JStr p), tr)
      \<and> parseErrorsAndFix (JStr s) (JStr l) =
          (Inr (JStr (fst (repairSteps (normalizeNewlines p)))),
           logMain ''parseErrorsAndFix: analyzing logs'' @ tr
           @ logMain ''Starting smartFixShader pass'' @ snd (repairSteps (normalizeNewlines p))
           @ logMain ''smartFixShader done'' @ logMain ''parseErrorsAndFix completed'')"
proof -
  obtain p tr where a: "applyDiagnostics (candidateErrors (diagnosticLines l)) (JStr s) = (Inr (JStr p), tr)"
    using applyDiagnostics_of_string by blast
  then show ?thesis
    by (simp add: parseErrorsAndFix_def smartFixShader_string)
qed

lemma parseErrorsAndFix_shapes:
  "(\<exists>l p tr v tr'. or_empty logsText = JStr l
        \<and> applyDiagnostics (candidateErrors (diagnosticLines l)) code = (Inr p, tr)
        \<and> smartFixShader p = (Inr v, tr')
        \<and> parseErrorsAndFix code logsText =
            (Inr v, logMain ''parseErrorsAndFix: analyzing logs'' @ tr @ tr'
                    @ logMain ''parseErrorsAndFix completed''))
   \<or> (\<exists>e tr msg.
        (receiver (''(logsText || '' @ dq @ dq @ '')'') ''split'' (or_empty logsText) = Inl e \<and> tr = []
         \<or> (\<exists>l. or_empty logsText = JStr l
               \<and> applyDiagnostics (candidateErrors (diagnosticLines l)) code = (Inl e, tr))
         \<or> (\<exists>l p tr1 tr2. or_empty logsText = JStr l
               \<and> applyDiagnostics (candidateErrors (diagnosticLines l)) code = (Inr p, tr1)
               \<and> smartFixShader p = (Inl e, tr2) \<and> tr = tr1 @ tr2))
        \<and> errorText e = Inr msg
        \<and> parseErrorsAndFix code logsText =
            (Inr code, logMain ''parseErrorsAndFix: analyzing logs'' @ tr
                       @ logMainErr (''parseErrorsAndFix error: '' @ msg)))
   \<or> (\<exists>e tr e'.
        (is_object logsText
           \<and> receiver (''(logsText || '' @ dq @ dq @ '')'') ''split'' (or_empty logsText) = Inl e
           \<and> tr = []
         \<or> is_object code
           \<and> (\<exists>l. or_empty logsText = JStr l
               \<and> applyDiagnostics (candidateErrors (diagnosticLines l)) code = (Inl e, tr)))
        \<and> errorText e = Inl e'
        \<and> parseErrorsAndFix code logsText =
            (Inl e', logMain ''parseErrorsAndFix: analyzing logs'' @ tr))"
proof (cases "receiver (''(logsText || '' @ dq @ dq @ '')'') ''split'' (or_empty logsText)")
  case (Inl e)
  show ?thesis
  proof (cases "errorText e")
    case msg: (Inr msg)
    have "parseErrorsAndFix code logsText =
            (Inr code, logMain ''parseErrorsAndFix: analyzing logs'' @ []
                       @ logMainErr (''parseErrorsAndFix error: '' @ msg))"
      using Inl msg by (simp add: parseErrorsAndFix_def caught_def)
    with Inl msg show ?thesis by blast
  next
    case e': (Inl e')
    have "parseErrorsAndFix code logsText =
            (Inl e', logMain ''parseErrorsAndFix: analyzing logs'' @ [])"
      using Inl e' by (simp add: parseErrorsAndFix_def caught_def)
    moreover have "is_object logsText" using Inl e' by (rule receiver_raise_object)
    ultimately show ?thesis using Inl e' by blast
  qed
next
  case (Inr l)
  then have l: "or_empty logsText = JStr l" by (rule receiver_Inr)
  obtain res tr where a: "applyDiagnostics (candidateErrors (diagnosticLines l)) code = (res, tr)"
    by (cases "applyDiagnostics (candidateErrors (diagnosticLines l)) code")
  show ?thesis
  proof (cases res)
    case e: (Inl e)
    show ?thesis
    proof (cases "errorText e")
      case msg: (Inr msg)
      have "parseErrorsAndFix code logsText =
            (Inr code, logMain ''parseErrorsAndFix: analyzing logs'' @ tr
                       @ logMainErr (''parseErrorsAndFix error: '' @ msg))"
        using Inr a e msg by (simp add: parseErrorsAndFix_def caught_def)
      with l a e msg show ?thesis by blast
    next
      case e': (Inl e')
      have "parseErrorsAndFix code logsText =
            (Inl e', logMain ''parseErrorsAndFix: analyzing logs'' @ tr)"
        using Inr a e e' by (simp add: parseErrorsAndFix_def caught_def)
      moreover have "is_object code"
        using a e e' applyDiagnostics_raise_object by blast
      ultimately show ?thesis using l a e e' by blast
    qed
  next
    case p: (Inr p)
    obtain res' tr' where f: "smartFixShader p = (res', tr')" by (cases "smartFixShader p")
    show ?thesis
    proof (cases res')
      case v: (Inr v)
      have "parseErrorsAndFix code logsText =
            (Inr v, logMain ''parseErrorsAndFix: analyzing logs'' @ tr @ tr'
                    @ logMain ''parseErrorsAndFix completed'')"
        using Inr a p f v by (simp add: parseErrorsAndFix_def)
      with l a p f v show ?thesis by blast
    next
      case e: (Inl e)
      obtain msg where msg: "errorText e = Inr msg"
        using smartFixShader_raise_caught f e by blast
      have "parseErrorsAndFix code logsText =
            (Inr code, logMain ''parseErrorsAndFix: analyzing logs'' @ (tr @ tr')
                       @ logMainErr (''parseErrorsAndFix error: '' @ msg))"
        using Inr a p f e msg by (simp add: parseErrorsAndFix_def caught_def)
      with l a p f e msg show ?thesis by blast
    qed
  qed
qed

text \<open>
  C3. The claim expects an exception inside the pipeline to skip only the failing step
  and the remaining steps to run, and neither function ever to throw. Each of the two
  functions has a single \<^verbatim>\<open>try\<close> block around its whole body: the first exception ends
  the run, and the \<^verbatim>\<open>catch\<close> returns the argument \<^verbatim>\<open>code\<close>. For \<^verbatim>\<open>smartFixShader(true)\<close>
  no step runs (the lines that the later steps log unconditionally are not written), and
  for \<^verbatim>\<open>parseErrorsAndFix(null, "expected ';'")\<close> the final \<^verbatim>\<open>smartFixShader\<close> pass is not
  reached. For an object whose \<^verbatim>\<open>replace\<close> (or \<^verbatim>\<open>split\<close>) throws \<^verbatim>\<open>null\<close> (or
  \<^verbatim>\<open>undefined\<close>), the \<^verbatim>\<open>catch\<close> block itself throws, and the function throws.
\<close>

theorem pipeline_aborts_on_exception:
  "fst (smartFixShader (JBool True)) = Inr (JBool True)
   \<and> map fst (snd (smartFixShader (JBool True))) = [''OK'', ''ERR'']
   \<and> (''OK'', ''Inserted division guards'') \<notin> set (snd (smartFixShader (JBool True)))
   \<and> fst (parseErrorsAndFix JNull (JStr (''expected '' @ sq @ '';'' @ sq))) = Inr JNull
   \<and> map fst (snd (parseErrorsAndFix JNull (JStr (''expected '' @ sq @ '';'' @ sq))))
       = [''OK'', ''ERR'']
   \<and> (''OK'', ''Starting smartFixShader pass'')
        \<notin> set (snd (parseErrorsAndFix JNull (JStr (''expected '' @ sq @ '';'' @ sq))))
   \<and> smartFixShader (JThrower JNull) =
       (Inl (TypeError (''Cannot read properties of null (reading '' @ sq @ ''message'' @ sq @ '')'')),
        [(''OK'', ''Starting smartFixShader pass'')])
   \<and> parseErrorsAndFix (JStr ''void main(){}'') (JThrower JUndefined) =
       (Inl (TypeError (''Cannot read properties of undefined (reading '' @ sq @ ''message'' @ sq @ '')'')),
        [(''OK'', ''parseErrorsAndFix: analyzing logs'')])"
  by code_simp

text \<open>
  C3, as amended. On strings no statement throws: \<^verbatim>\<open>smartFixShader\<close> runs all its steps
  and returns their result, and \<^verbatim>\<open>parseErrorsAndFix\<close> applies the patches of every
  selected diagnostic line, then the whole of \<^verbatim>\<open>smartFixShader\<close>, and returns its result
  (first and second part). The patches run one after the other, and a patch that throws
  ends the sequence: none is skipped to go on with the next (last part).

  For any arguments each function ends in one of three ways (third part for
  \<^verbatim>\<open>smartFixShader\<close>, fourth for \<^verbatim>\<open>parseErrorsAndFix\<close>). It completes: no statement of its
  \<^verbatim>\<open>try\<close> block threw. Or a statement threw, the run ended there, and the \<^verbatim>\<open>catch\<close>
  block logged the error as the last entry and returned the argument \<^verbatim>\<open>code\<close> as it was
  passed. Or a statement threw \<^verbatim>\<open>null\<close> or \<^verbatim>\<open>undefined\<close> and the \<^verbatim>\<open>catch\<close> block threw in
  turn, which takes an argument that is an object: on strings, booleans, \<^verbatim>\<open>undefined\<close> and
  \<^verbatim>\<open>null\<close> both functions return.
\<close>

theorem pipeline_single_try_block:
  "smartFixShader (JStr s) =
     (Inr (JStr (fst (repairSteps (normalizeNewlines s)))),
      logMain ''Starting smartFixShader pass'' @ snd (repairSteps (normalizeNewlines s))
        @ logMain ''smartFixShader done'')
   \<and> (\<exists>p tr. applyDiagnostics (candidateErrors (diagnosticLines l)) (JStr s) = (Inr (JStr p), tr)
        \<and> parseErrorsAndFix (JStr s) (JStr l) =
            (Inr (JStr (fst (repairSteps (normalizeNewlines p)))),
             logMain ''parseErrorsAndFix: analyzing logs'' @ tr
             @ logMain ''Starting smartFixShader pass'' @ snd (repairSteps (normalizeNewlines p))
             @ logMain ''smartFixShader done'' @ logMain ''parseErrorsAndFix completed''))
   \<and> ((\<exists>s. or_empty code = JStr s \<and> smartFixShader code = smartFixShader (JStr s))
      \<or> (\<exists>e msg. receiver (''(code || '' @ dq @ dq @ '')'') ''replace'' (or_empty code) = Inl e
            \<and> errorText e = Inr msg
            \<and> smartFixShader code =
                (Inr code, logMain ''Starting smartFixShader pass''
                           @ logMainErr (''smartFixShader error: '' @ msg)))
      \<or> (\<exists>e e'. is_object code
            \<and> receiver (''(code || '' @ dq @ dq @ '')'') ''replace'' (or_empty code) = Inl e
            \<and> errorText e = Inl e'
            \<and> smartFixShader code = (Inl e', logMain ''Starting smartFixShader pass'')))
   \<and> ((\<exists>l p tr v tr'. or_empty logsText = JStr l
            \<and> applyDiagnostics (candidateErrors (diagnosticLines l)) code = (Inr p, tr)
            \<and> smartFixShader p = (Inr v, tr')
            \<and> parseErrorsAndFix code logsText =
                (Inr v, logMain ''parseErrorsAndFix: analyzing logs'' @ tr @ tr'
                        @ logMain ''parseErrorsAndFix completed''))
      \<or> (\<exists>e tr msg.
            (receiver (''(logsText || '' @ dq @ dq @ '')'') ''split'' (or_empty logsText) = Inl e
               \<and> tr = []
             \<or> (\<exists>l. or_empty logsText = JStr l
                   \<and> applyDiagnostics (candidateErrors (diagnosticLines l)) code = (Inl e, tr))
             \<or> (\<exists>l p tr1 tr2. or_empty logsText = JStr l
                   \<and> applyDiagnostics (candidateErrors (diagnosticLines l)) code = (Inr p, tr1)
                   \<and> smartFixShader p = (Inl e, tr2) \<and> tr = tr1 @ tr2))
            \<and> errorText e = Inr msg
            \<and> parseErrorsAndFix code logsText =
                (Inr code, logMain ''parseErrorsAndFix: analyzing logs'' @ tr
                           @ logMainErr (''parseErrorsAndFix error: '' @ msg)))
      \<or> (\<exists>e tr e'.
            (is_object logsText
               \<and> receiver (''(logsText || '' @ dq @ dq @ '')'') ''split'' (or_empty logsText) = Inl e
               \<and> tr = []
             \<or> is_object code
               \<and> (\<exists>l. or_empty logsText = JStr l
                   \<and> applyDiagnostics (candidateErrors (diagnosticLines l)) code = (Inl e, tr)))
            \<and> errorText e = Inl e'
            \<and> parseErrorsAndFix code logsText =
                (Inl e', logMain ''parseErrorsAndFix: analyzing logs'' @ tr)))
   \<and> applyDiagnostics errs code = runPatches (concat (map patchesFor errs)) code"
  by (rule conjI[OF smartFixShader_string
        conjI[OF parseErrorsAndFix_string
          conjI[OF smartFixShader_shapes
            conjI[OF parseErrorsAndFix_shapes applyDiagnostics_runPatches]]]])

section \<open>Blank diagnostic text\<close>

lemma split_nl_nonempty: "split_nl s \<noteq> []"
  by (induction s) (auto split: list.splits)

lemma split_nl_chars: "l \<in> set (split_nl s) \<Longrightarrow> set l \<subseteq> set s"
proof (induction s arbitrary: l)
  case Nil
  then show ?case by simp
next
  case (Cons c cs)
  show ?case
  proof (cases "c = CHR 0x0A")
    case True
    with Cons.prems have "l = [] \<or> l \<in> set (split_nl cs)" by simp
    with Cons.IH show ?thesis by auto
  next
    case False
    obtain h t where ht: "split_nl cs = h # t"
      using split_nl_nonempty[of cs] by (cases "split_nl cs") auto
    with False Cons.prems have "l = c # h \<or> l \<in> set t" by simp
    moreover have "set h \<subseteq> set cs" using Cons.IH[of h] ht by simp
    moreover have "l \<in> set t \<Longrightarrow> set l \<subseteq> set cs" using Cons.IH[of l] ht by simp
    ultimately show ?thesis by auto
  qed
qed

lemma trim_blank: "\<forall>c\<in>set l. is_space c \<Longrightarrow> trim l = []"
  by (auto simp: trim_def dest: set_dropWhileD)

lemma diagnosticLines_blank:
  assumes "\<forall>c\<in>set d. is_space c"
  shows "diagnosticLines d = []"
proof -
  have "trim l = []" if "l \<in> set (split_nl d)" for l
  proof -
    have "set l \<subseteq> set d" using that by (rule split_nl_chars)
    with assms have "\<forall>c\<in>set l. is_space c" by blast
    then show ?thesis by (rule trim_blank)
  qed
  then show ?thesis by (simp add: diagnosticLines_def filter_empty_conv)
qed

lemma applyDiagnostics_Nil: "applyDiagnostics [] code = (Inr code, [])"
  by (simp add: applyDiagnostics_def)

lemma smartFixShader_returns:
  "\<not> is_object code \<Longrightarrow> \<exists>v tr. smartFixShader code = (Inr v, tr)"
  using smartFixShader_shapes[of code] by (auto simp: smartFixShader_string)

text \<open>
  C10. When the diagnostic text is empty or has only whitespace and newlines, no
  diagnostic line is selected, no patch is applied, and \<^verbatim>\<open>parseErrorsAndFix\<close> returns
  what \<^verbatim>\<open>smartFixShader\<close> returns on the same argument: a string, or any other value
  that is not an object.
\<close>

theorem parseErrorsAndFix_blank_logs:
  assumes "\<forall>c\<in>set d. is_space c" and "\<not> is_object code"
  shows "fst (parseErrorsAndFix code (JStr d)) = fst (smartFixShader code)"
proof -
  have "receiver (''(logsText || '' @ dq @ dq @ '')'') ''split'' (or_empty (JStr d)) = Inr d"
    by (simp add: or_empty_def)
  moreover have "candidateErrors (diagnosticLines d) = []"
    using diagnosticLines_blank[OF assms(1)] by (simp add: candidateErrors_def)
  moreover obtain v tr where "smartFixShader code = (Inr v, tr)"
    using smartFixShader_returns[OF assms(2)] by blast
  ultimately show ?thesis
    by (simp add: parseErrorsAndFix_def applyDiagnostics_Nil)
qed

theorem parseErrorsAndFix_blank_logs_witness:
  "list_all is_space [CHR '' '', CHR 0x0A, CHR 0x09, CHR '' '']
   \<and> is_object (JStr ''void main(){}'') = False
   \<and> fst (parseErrorsAndFix (JStr ''void main(){}'') (JStr [CHR '' '', CHR 0x0A, CHR 0x09, CHR '' '']))
       = fst (smartFixShader (JStr ''void main(){}''))"
proof -
  have h: "\<forall>c\<in>set [CHR '' '', CHR 0x0A, CHR 0x09, CHR '' '']. is_space c"
    by (simp add: is_space_def)
  have o: "\<not> is_object (JStr ''void main(){}'')"
    by simp
  have "list_all is_space [CHR '' '', CHR 0x0A, CHR 0x09, CHR '' '']"
    by (simp add: is_space_def)
  then show ?thesis
    using parseErrorsAndFix_blank_logs[OF h o] o by blast
qed

text \<open>
  For an object the two can differ: when its \<^verbatim>\<open>replace\<close> throws \<^verbatim>\<open>null\<close>,
  \<^verbatim>\<open>smartFixShader\<close> throws, and \<^verbatim>\<open>parseErrorsAndFix\<close> catches that and returns the object.
\<close>

lemma parseErrorsAndFix_blank_logs_object:
  "fst (parseErrorsAndFix (JThrower JNull) (JStr [])) = Inr (JThrower JNull)
   \<and> isl (fst (smartFixShader (JThrower JNull)))"
  by code_simp

section \<open>An undeclared identifier\<close>

lemma undeclaredFooLine_selected:
  "candidateErrors (diagnosticLines undeclaredFooLine) = [undeclaredFooLine]"
  by code_simp

lemma undeclaredFooLine_patterns:
  "rx_test True rx_semicolonDiag undeclaredFooLine = False"
  "rx_test False rx_quotedSemicolon undeclaredFooLine = False"
  "rx_test True rx_implicitDiag undeclaredFooLine = False"
  "rx_test True rx_textureDiag undeclaredFooLine = False"
  "rx_test True rx_mainDiag undeclaredFooLine = False"
  "rx_test True rx_unmatchedDiag undeclaredFooLine = False"
  by code_simp+

lemma undeclaredFooLine_identifier:
  "map_option (\<lambda>g. sanitizeId (firstCaptured g)) (rx_match True rx_undeclared undeclaredFooLine)
     = Some ''foo''"
  by code_simp

lemma rx_scan_Cls:
  "rx_scan ic (Cls P) b s = map (\<lambda>c. if P c then Hit [c] [] else Keep c) s"
  by (induction s arbitrary: b) simp_all

lemma sanitizeId_filter: "sanitizeId s = filter is_word s"
  by (induction s) (simp_all add: sanitizeId_def rx_replace_all_def rx_scan_Cls)

lemma undeclaredPatch_undeclaredFooLine:
  "undeclaredPatch undeclaredFooLine patched =
     (Inr (JStr (''uniform float foo;'' @ [CHR 0x0A] @ to_string patched)),
      logMain ''Declared foo as uniform float (heuristic)'')"
proof -
  obtain g where g: "rx_match True rx_undeclared undeclaredFooLine = Some g"
      and i: "sanitizeId (firstCaptured g) = ''foo''"
    using undeclaredFooLine_identifier by (auto simp: map_option_case split: option.splits)
  show ?thesis by (simp add: undeclaredPatch_def g i)
qed

lemma applyDiagnostic_undeclaredFooLine:
  "applyDiagnostic undeclaredFooLine (JStr src) =
     (Inr (JStr (''uniform float foo;'' @ [CHR 0x0A] @ src)),
      logMain ''Declared foo as uniform float (heuristic)'')"
  by (simp add: applyDiagnostic_def thenPatch_def undeclaredPatch_undeclaredFooLine
        semicolonPatch_def implicitPatch_def texturePatch_def mainPatch_def unmatchedPatch_def
        unchanged_def undeclaredFooLine_patterns)

subsection \<open>The three phrasings\<close>

text \<open>
  The group of each phrasing is lazy and followed by a quote: on a quoted text without a
  quote in it the group takes the whole text.
\<close>

lemma canonicalize_quote: "(canonicalize True c = canonicalize True CHR 0x27) = (c = CHR 0x27)"
  by (cases c) (auto simp: canonicalize_True_Char)

lemma star_lazy_skip:
  assumes "list_all P x" and "\<And>g b c cs. c \<in> set x \<Longrightarrow> h (g, b, c # cs) = []"
  shows "concat (map h (star_lazy P g b (x @ r))) = concat (map h (star_lazy P g (rev x @ b) r))"
  using assms by (induction x arbitrary: b) simp_all

lemma star_lazy_head: "\<exists>rest. star_lazy P g b r = (g, b, r) # rest"
  by (cases r) simp_all

lemma group_lazy_until:
  assumes x: "list_all P x"
    and K: "\<And>g b c cs. c \<in> set x \<Longrightarrow> rx_run ic K (g, b, c # cs) = []"
  shows "\<exists>rest. rx_run ic (Seq (Group n (LazyStar P)) K) (g, b, x @ r) =
           rx_run ic K ((n, x) # g, rev x @ b, r) @ rest"
proof -
  define G :: "mstate \<Rightarrow> mstate"
    where "G = (\<lambda>(g', b', r'). ((n, take (length (x @ r) - length r') (x @ r)) # g', b', r'))"
  define h where "h = (\<lambda>st. rx_run ic K (G st))"
  have fail: "\<And>g b c cs. c \<in> set x \<Longrightarrow> h (g, b, c # cs) = []"
    by (simp add: h_def G_def K)
  have "rx_run ic (Seq (Group n (LazyStar P)) K) (g, b, x @ r) =
          concat (map h (star_lazy P g b (x @ r)))"
    by (simp add: h_def G_def comp_def)
  also have "\<dots> = concat (map h (star_lazy P g (rev x @ b) r))"
    using x fail by (rule star_lazy_skip)
  finally have e: "rx_run ic (Seq (Group n (LazyStar P)) K) (g, b, x @ r) =
          concat (map h (star_lazy P g (rev x @ b) r))" .
  obtain rest where "star_lazy P g (rev x @ b) r = (g, rev x @ b, r) # rest"
    using star_lazy_head by blast
  then have "concat (map h (star_lazy P g (rev x @ b) r)) =
      rx_run ic K ((n, x) # g, rev x @ b, r) @ concat (map h rest)"
    by (simp add: h_def G_def)
  with e show ?thesis by auto
qed

lemma quotable_not_quote: "list_all quotable x \<Longrightarrow> c \<in> set x \<Longrightarrow> c \<noteq> CHR 0x27"
  by (auto simp: list_all_iff quotable_def)

lemma quotable_is_dot: "list_all quotable x \<Longrightarrow> list_all is_dot x"
  by (auto simp: list_all_iff quotable_def)

lemma rx_exec_from_head:
  "rx_run ic r ([], b, s) = st # rest \<Longrightarrow> rx_exec_from ic r b s = Some st"
  by (cases s) simp_all

lemma rx_run_Seq_Lit_sq:
  "rx_run True (Seq (Lit sq) Q) (g, b, sq @ r) = rx_run True Q (g, CHR 0x27 # b, r)"
  by (simp add: sq_def)

lemma rx_run_Seq_Lit_sq_fails:
  "c \<noteq> CHR 0x27 \<Longrightarrow> rx_run True (Seq (Lit sq) Q) (g, b, c # r) = []"
  by (simp add: sq_def canonicalize_quote)

lemma rx_run_Lit_sq_fails:
  "c \<noteq> CHR 0x27 \<Longrightarrow> rx_run True (Lit (sq @ s)) (g, b, c # r) = []"
  by (simp add: sq_def canonicalize_quote)

lemma phrasing1_tail:
  "rx_run True (Seq (Lit sq) (Seq (Star is_space) (Seq (Lit '':'') (Seq (Star is_space)
                         (Lit ''undeclared identifier'')))))
      (g, b, sq @ '' : undeclared identifier'')
   = [(g, rev (sq @ '' : undeclared identifier'') @ b, [])]"
  by code_simp

lemma phrasing2_head:
  "rx_run True (Seq (Lit ''undeclared identifier'') (Seq (Star is_space) (Seq (Lit sq) Q)))
      (g, b, ''undeclared identifier '' @ sq @ r)
   = rx_run True Q (g, rev (''undeclared identifier '' @ sq) @ b, r)"
  by code_simp (simp only: append_Nil2)

lemma phrasing2_tail: "rx_run True (Lit sq) (g, b, sq) = [(g, CHR 0x27 # b, [])]"
  by (simp add: sq_def)

lemma phrasing3_head:
  "rx_run True (Seq (Lit (''error: '' @ sq)) Q) (g, b, ''error: '' @ sq @ r)
   = rx_run True Q (g, rev (''error: '' @ sq) @ b, r)"
  by code_simp (simp only: append_Nil2)

lemma phrasing3_not2:
  "rx_run True (Seq (Lit ''undeclared identifier'') Q) (g, b, ''error: '' @ r) = []"
  by code_simp

lemma phrasing3_tail:
  "rx_run True (Lit (sq @ '' undeclared'')) (g, b, sq @ '' undeclared'')
     = [(g, rev (sq @ '' undeclared'') @ b, [])]"
  by code_simp


lemma rx_match_phrasing1:
  assumes x: "list_all quotable x"
  shows "rx_match True rx_undeclared (phrasing1 x) = Some [(1, x)]"
proof -
  define K where "K = Seq (Lit sq) (Seq (Star is_space) (Seq (Lit '':'') (Seq (Star is_space)
                         (Lit ''undeclared identifier''))))"
  define R where "R = alts
     [seqs [Lit ''undeclared identifier'', Star is_space, Lit sq, Group 2 (LazyStar is_dot), Lit sq],
      seqs [Lit (''error: '' @ sq), Group 3 (LazyStar is_dot), Lit (sq @ '' undeclared'')]]"
  have u: "rx_undeclared = Alt (Seq (Lit sq) (Seq (Group 1 (LazyStar is_dot)) K)) R"
    by (simp add: rx_undeclared_def K_def R_def)
  have fail: "rx_run True K (g, b, c # cs) = []" if "c \<in> set x" for g b c cs
    unfolding K_def using quotable_not_quote[OF x that] by (rule rx_run_Seq_Lit_sq_fails)
  obtain rest where
    "rx_run True (Seq (Group 1 (LazyStar is_dot)) K)
       ([], [CHR 0x27], x @ sq @ '' : undeclared identifier'')
       = rx_run True K ([(1, x)], rev x @ [CHR 0x27], sq @ '' : undeclared identifier'') @ rest"
    using group_lazy_until[OF quotable_is_dot[OF x] fail] by blast
  moreover have "rx_run True K ([(1, x)], rev x @ [CHR 0x27], sq @ '' : undeclared identifier'')
      = [([(1, x)], rev (sq @ '' : undeclared identifier'') @ rev x @ [CHR 0x27], [])]"
    unfolding K_def by (rule phrasing1_tail)
  moreover have "rx_run True (Seq (Lit sq) (Seq (Group 1 (LazyStar is_dot)) K)) ([], [], phrasing1 x)
      = rx_run True (Seq (Group 1 (LazyStar is_dot)) K)
          ([], [CHR 0x27], x @ sq @ '' : undeclared identifier'')"
    unfolding phrasing1_def by (rule rx_run_Seq_Lit_sq)
  ultimately have "rx_run True rx_undeclared ([], [], phrasing1 x) =
       ([(1, x)], rev (sq @ '' : undeclared identifier'') @ rev x @ [CHR 0x27], [])
         # rest @ rx_run True R ([], [], phrasing1 x)"
    by (simp only: u rx_run.simps(4) append_Cons append_Nil)
  then show ?thesis
    by (simp add: rx_match_def rx_exec_from_head del: rx_run.simps)
qed

lemma rx_match_phrasing2:
  assumes x: "list_all quotable x"
  shows "rx_match True rx_undeclared (phrasing2 x) = Some [(2, x)]"
proof -
  define A1 where "A1 = seqs [Group 1 (LazyStar is_dot), Lit sq, Star is_space, Lit '':'',
                             Star is_space, Lit ''undeclared identifier'']"
  define A3 where
    "A3 = seqs [Lit (''error: '' @ sq), Group 3 (LazyStar is_dot), Lit (sq @ '' undeclared'')]"
  define A2 where
    "A2 = Seq (Lit ''undeclared identifier'') (Seq (Star is_space) (Seq (Lit sq)
                  (Seq (Group 2 (LazyStar is_dot)) (Lit sq))))"
  have u: "rx_undeclared = Alt (Seq (Lit sq) A1) (Alt A2 A3)"
    by (simp add: rx_undeclared_def A1_def A2_def A3_def)
  have fail: "rx_run True (Lit sq) (g, b, c # cs) = []" if "c \<in> set x" for g b c cs
    using rx_run_Lit_sq_fails[OF quotable_not_quote[OF x that], of "[]"] by simp
  obtain rest where
    "rx_run True (Seq (Group 2 (LazyStar is_dot)) (Lit sq))
       ([], rev (''undeclared identifier '' @ sq) @ [], x @ sq)
       = rx_run True (Lit sq) ([(2, x)], rev x @ rev (''undeclared identifier '' @ sq) @ [], sq) @ rest"
    using group_lazy_until[OF quotable_is_dot[OF x] fail] by blast
  moreover have "rx_run True (Lit sq) ([(2, x)], rev x @ rev (''undeclared identifier '' @ sq) @ [], sq)
       = [([(2, x)], CHR 0x27 # rev x @ rev (''undeclared identifier '' @ sq) @ [], [])]"
    by (rule phrasing2_tail)
  moreover have "rx_run True A2 ([], [], phrasing2 x) =
       rx_run True (Seq (Group 2 (LazyStar is_dot)) (Lit sq))
         ([], rev (''undeclared identifier '' @ sq) @ [], x @ sq)"
    unfolding phrasing2_def A2_def by (rule phrasing2_head)
  moreover have "rx_run True (Seq (Lit sq) A1) ([], [], phrasing2 x) = []"
    unfolding phrasing2_def by (simp add: rx_run_Seq_Lit_sq_fails del: rx_run.simps)
  ultimately have "rx_run True rx_undeclared ([], [], phrasing2 x) =
       ([(2, x)], CHR 0x27 # rev x @ rev (''undeclared identifier '' @ sq) @ [], [])
         # rest @ rx_run True A3 ([], [], phrasing2 x)"
    by (simp only: u rx_run.simps(4) append_Cons append_Nil)
  then show ?thesis
    by (simp add: rx_match_def rx_exec_from_head del: rx_run.simps)
qed

lemma rx_match_phrasing3:
  assumes x: "list_all quotable x"
  shows "rx_match True rx_undeclared (phrasing3 x) = Some [(3, x)]"
proof -
  define A1 where "A1 = seqs [Group 1 (LazyStar is_dot), Lit sq, Star is_space, Lit '':'',
                             Star is_space, Lit ''undeclared identifier'']"
  define A2 where
    "A2 = seqs [Star is_space, Lit sq, Group 2 (LazyStar is_dot), Lit sq]"
  define A3 where
    "A3 = Seq (Lit (''error: '' @ sq)) (Seq (Group 3 (LazyStar is_dot))
                  (Lit (sq @ '' undeclared'')))"
  have u: "rx_undeclared =
      Alt (Seq (Lit sq) A1) (Alt (Seq (Lit ''undeclared identifier'') A2) A3)"
    by (simp add: rx_undeclared_def A1_def A2_def A3_def)
  have fail: "rx_run True (Lit (sq @ '' undeclared'')) (g, b, c # cs) = []"
    if "c \<in> set x" for g b c cs
    using quotable_not_quote[OF x that] by (rule rx_run_Lit_sq_fails)
  obtain rest where
    "rx_run True (Seq (Group 3 (LazyStar is_dot)) (Lit (sq @ '' undeclared'')))
       ([], rev (''error: '' @ sq) @ [], x @ sq @ '' undeclared'')
       = rx_run True (Lit (sq @ '' undeclared''))
           ([(3, x)], rev x @ rev (''error: '' @ sq) @ [], sq @ '' undeclared'') @ rest"
    using group_lazy_until[OF quotable_is_dot[OF x] fail] by blast
  moreover have "rx_run True (Lit (sq @ '' undeclared''))
           ([(3, x)], rev x @ rev (''error: '' @ sq) @ [], sq @ '' undeclared'')
       = [([(3, x)], rev (sq @ '' undeclared'') @ rev x @ rev (''error: '' @ sq) @ [], [])]"
    by (rule phrasing3_tail)
  moreover have "rx_run True A3 ([], [], phrasing3 x) =
       rx_run True (Seq (Group 3 (LazyStar is_dot)) (Lit (sq @ '' undeclared'')))
         ([], rev (''error: '' @ sq) @ [], x @ sq @ '' undeclared'')"
    unfolding phrasing3_def A3_def by (rule phrasing3_head)
  moreover have "rx_run True (Seq (Lit sq) A1) ([], [], phrasing3 x) = []"
    unfolding phrasing3_def by (simp add: rx_run_Seq_Lit_sq_fails del: rx_run.simps)
  moreover have "rx_run True (Seq (Lit ''undeclared identifier'') A2) ([], [], phrasing3 x) = []"
    unfolding phrasing3_def by (rule phrasing3_not2)
  ultimately have "rx_run True rx_undeclared ([], [], phrasing3 x) =
       ([(3, x)], rev (sq @ '' undeclared'') @ rev x @ rev (''error: '' @ sq) @ [], []) # rest"
    by (simp only: u rx_run.simps(4) append_Cons append_Nil)
  then show ?thesis
    by (simp add: rx_match_def rx_exec_from_head del: rx_run.simps)
qed


lemma undeclaredPatch_explicit:
  "undeclaredPatch err patched =
     (case rx_match True rx_undeclared err of
        None \<Rightarrow> (Inr patched, [])
      | Some g \<Rightarrow>
          (let ident = filter is_word
                 (if grp g 1 \<noteq> [] then grp g 1 else if grp g 2 \<noteq> [] then grp g 2 else grp g 3)
           in if ident \<noteq> []
              then (Inr (JStr (''uniform float '' @ ident @ '';'' @ [CHR 0x0A] @ to_string patched)),
                    logMain (''Declared '' @ ident @ '' as uniform float (heuristic)''))
              else (Inr patched, [])))"
  by (simp add: undeclaredPatch_def unchanged_def sanitizeId_filter firstCaptured_def Let_def
           split: option.splits)

lemma undeclaredPatch_group:
  assumes "rx_match True rx_undeclared err = Some [(n, x)]" and "n = 1 \<or> n = 2 \<or> n = 3"
  shows "undeclaredPatch err patched =
     (if filter is_word x \<noteq> []
      then (Inr (JStr (''uniform float '' @ filter is_word x @ '';'' @ [CHR 0x0A]
                       @ to_string patched)),
            logMain (''Declared '' @ filter is_word x @ '' as uniform float (heuristic)''))
      else (Inr patched, []))"
  using assms by (auto simp: undeclaredPatch_explicit grp_def Let_def)

text \<open>
  C7. For every source string, the single diagnostic line
  \<^verbatim>\<open>ERROR: 'foo' : undeclared identifier\<close> makes \<^verbatim>\<open>parseErrorsAndFix\<close> put the line
  \<^verbatim>\<open>uniform float foo;\<close> in front of the source, and that text is what the final
  \<^verbatim>\<open>smartFixShader\<close> pass receives (first and second part). For any diagnostic line, the
  patch takes group 1 of the match if it is not empty, else group 2 if it is not empty,
  else group 3, keeps its characters in \<^verbatim>\<open>[a-zA-Z0-9_]\<close>, and does nothing when no
  character is left (third part). For each of the three phrasings around a quoted text
  \<open>x\<close> without quote and line terminator, the match has \<open>x\<close> as its group 1, 2 or 3,
  and the patch declares the word characters of \<open>x\<close>, or does nothing when \<open>x\<close> has none
  (fourth part).
\<close>

theorem undeclared_identifier_declared_as_uniform:
  "applyDiagnostics (candidateErrors (diagnosticLines undeclaredFooLine)) (JStr src) =
     (Inr (JStr (''uniform float foo;'' @ [CHR 0x0A] @ src)),
      logMain ''Declared foo as uniform float (heuristic)'')
   \<and> fst (parseErrorsAndFix (JStr src) (JStr undeclaredFooLine)) =
       fst (smartFixShader (JStr (''uniform float foo;'' @ [CHR 0x0A] @ src)))
   \<and> undeclaredPatch err patched =
       (case rx_match True rx_undeclared err of
          None \<Rightarrow> (Inr patched, [])
        | Some g \<Rightarrow>
            (let ident = filter is_word
                   (if grp g 1 \<noteq> [] then grp g 1 else if grp g 2 \<noteq> [] then grp g 2
                    else grp g 3)
             in if ident \<noteq> []
                then (Inr (JStr (''uniform float '' @ ident @ '';'' @ [CHR 0x0A]
                                 @ to_string patched)),
                      logMain (''Declared '' @ ident @ '' as uniform float (heuristic)''))
                else (Inr patched, [])))
   \<and> (list_all quotable x \<longrightarrow>
        rx_match True rx_undeclared (phrasing1 x) = Some [(1, x)]
        \<and> rx_match True rx_undeclared (phrasing2 x) = Some [(2, x)]
        \<and> rx_match True rx_undeclared (phrasing3 x) = Some [(3, x)]
        \<and> undeclaredPatch (phrasing1 x) patched = undeclaredPatch (phrasing2 x) patched
        \<and> undeclaredPatch (phrasing2 x) patched = undeclaredPatch (phrasing3 x) patched
        \<and> undeclaredPatch (phrasing3 x) patched =
            (if filter is_word x \<noteq> []
             then (Inr (JStr (''uniform float '' @ filter is_word x @ '';'' @ [CHR 0x0A]
                              @ to_string patched)),
                   logMain (''Declared '' @ filter is_word x @ '' as uniform float (heuristic)''))
             else (Inr patched, [])))"
proof -
  have a: "applyDiagnostics (candidateErrors (diagnosticLines undeclaredFooLine)) (JStr src) =
     (Inr (JStr (''uniform float foo;'' @ [CHR 0x0A] @ src)),
      logMain ''Declared foo as uniform float (heuristic)'')"
    by (simp add: undeclaredFooLine_selected applyDiagnostics_def thenPatch_def
          applyDiagnostic_undeclaredFooLine)
  have ne: "undeclaredFooLine \<noteq> []" by (simp add: undeclaredFooLine_def)
  have b: "fst (parseErrorsAndFix (JStr src) (JStr undeclaredFooLine)) =
       fst (smartFixShader (JStr (''uniform float foo;'' @ [CHR 0x0A] @ src)))"
    using a ne by (simp add: parseErrorsAndFix_def or_empty_def smartFixShader_string)
  have d: "rx_match True rx_undeclared (phrasing1 x) = Some [(1, x)]
        \<and> rx_match True rx_undeclared (phrasing2 x) = Some [(2, x)]
        \<and> rx_match True rx_undeclared (phrasing3 x) = Some [(3, x)]
        \<and> undeclaredPatch (phrasing1 x) patched = undeclaredPatch (phrasing2 x) patched
        \<and> undeclaredPatch (phrasing2 x) patched = undeclaredPatch (phrasing3 x) patched
        \<and> undeclaredPatch (phrasing3 x) patched =
            (if filter is_word x \<noteq> []
             then (Inr (JStr (''uniform float '' @ filter is_word x @ '';'' @ [CHR 0x0A]
                              @ to_string patched)),
                   logMain (''Declared '' @ filter is_word x @ '' as uniform float (heuristic)''))
             else (Inr patched, []))"
    if x: "list_all quotable x"
    using rx_match_phrasing1[OF x] rx_match_phrasing2[OF x] rx_match_phrasing3[OF x]
      undeclaredPatch_group[of "phrasing1 x" 1 x patched]
      undeclaredPatch_group[of "phrasing2 x" 2 x patched]
      undeclaredPatch_group[of "phrasing3 x" 3 x patched]
    by simp
  from a b d show ?thesis
    using undeclaredPatch_explicit[of err patched] by blast
qed

lemma quotable_example: "list_all quotable ''u-Time 2''"
  by code_simp

lemma is_word_example: "filter is_word ''u-Time 2'' = ''uTime2''"
  by code_simp

theorem undeclared_identifier_declared_as_uniform_witness:
  "list_all quotable ''u-Time 2''
   \<and> rx_match True rx_undeclared (phrasing2 ''u-Time 2'') = Some [(2, ''u-Time 2'')]
   \<and> undeclaredPatch (phrasing2 ''u-Time 2'') (JStr ''void main(){}'') =
       (Inr (JStr (''uniform float uTime2;'' @ [CHR 0x0A] @ ''void main(){}'')),
        logMain ''Declared uTime2 as uniform float (heuristic)'')"
proof -
  have "rx_match True rx_undeclared (phrasing1 ''u-Time 2'') = Some [(1, ''u-Time 2'')]
     \<and> rx_match True rx_undeclared (phrasing2 ''u-Time 2'') = Some [(2, ''u-Time 2'')]
     \<and> rx_match True rx_undeclared (phrasing3 ''u-Time 2'') = Some [(3, ''u-Time 2'')]
     \<and> undeclaredPatch (phrasing1 ''u-Time 2'') (JStr ''void main(){}'')
         = undeclaredPatch (phrasing2 ''u-Time 2'') (JStr ''void main(){}'')
     \<and> undeclaredPatch (phrasing2 ''u-Time 2'') (JStr ''void main(){}'')
         = undeclaredPatch (phrasing3 ''u-Time 2'') (JStr ''void main(){}'')
     \<and> undeclaredPatch (phrasing3 ''u-Time 2'') (JStr ''void main(){}'') =
        (if filter is_word ''u-Time 2'' \<noteq> []
         then (Inr (JStr (''uniform float '' @ filter is_word ''u-Time 2'' @ '';'' @ [CHR 0x0A]
                          @ to_string (JStr ''void main(){}''))),
               logMain (''Declared '' @ filter is_word ''u-Time 2''
                        @ '' as uniform float (heuristic)''))
         else (Inr (JStr ''void main(){}''), []))"
    using undeclared_identifier_declared_as_uniform
            [of "[]" "[]" "JStr ''void main(){}''" "''u-Time 2''"] quotable_example
    by blast
  then have "rx_match True rx_undeclared (phrasing2 ''u-Time 2'') = Some [(2, ''u-Time 2'')]
     \<and> undeclaredPatch (phrasing2 ''u-Time 2'') (JStr ''void main(){}'') =
        (Inr (JStr (''uniform float '' @ ''uTime2'' @ '';'' @ [CHR 0x0A] @ ''void main(){}'')),
         logMain (''Declared '' @ ''uTime2'' @ '' as uniform float (heuristic)''))"
    unfolding is_word_example by simp
  then show ?thesis
    using quotable_example by simp
qed

text \<open>
  The three phrasings on concrete lines: the second and third phrasing select groups 2
  and 3, and a quoted text without a word character leaves the source as it is.
\<close>

lemma undeclaredPatch_examples:
  "undeclaredPatch (''undeclared identifier '' @ sq @ ''bar'' @ sq) (JStr ''x'') =
     (Inr (JStr (''uniform float bar;'' @ [CHR 0x0A] @ ''x'')),
      logMain ''Declared bar as uniform float (heuristic)'')"
  "undeclaredPatch (''error: '' @ sq @ ''baz'' @ sq @ '' undeclared'') (JStr ''x'') =
     (Inr (JStr (''uniform float baz;'' @ [CHR 0x0A] @ ''x'')),
      logMain ''Declared baz as uniform float (heuristic)'')"
  "undeclaredPatch (''ERROR: 0:3: '' @ sq @ ''a.b'' @ sq @ '' : undeclared identifier'') (JStr ''x'') =
     (Inr (JStr (''uniform float ab;'' @ [CHR 0x0A] @ ''x'')),
      logMain ''Declared ab as uniform float (heuristic)'')"
  "undeclaredPatch (''undeclared identifier '' @ sq @ ''-'' @ sq) (JStr ''x'') = (Inr (JStr ''x''), [])"
  "undeclaredPatch ''undeclared identifier'' (JStr ''x'') = (Inr (JStr ''x''), [])"
  by code_simp+

section \<open>Text put in front of a match\<close>

lemma lit_run_shift:
  "lit_run ic s (b @ q) r = map_option (\<lambda>(b', r'). (b' @ q, r')) (lit_run ic s b r)"
proof (induction s arbitrary: b r)
  case Nil
  then show ?case by simp
next
  case (Cons x xs)
  show ?case
  proof (cases r)
    case Nil
    then show ?thesis by simp
  next
    case (Cons c cs)
    then show ?thesis using Cons.IH[of "c # b" cs] by simp
  qed
qed

lemma star_greedy_shift:
  "star_greedy P g (b @ q) r = map (shift q) (star_greedy P g b r)"
proof (induction r arbitrary: b)
  case Nil
  then show ?case by (simp add: shift_def)
next
  case (Cons c cs)
  then show ?case using Cons.IH[of "c # b"] by (simp add: shift_def)
qed

lemma star_lazy_shift:
  "star_lazy P g (b @ q) r = map (shift q) (star_lazy P g b r)"
proof (induction r arbitrary: b)
  case Nil
  then show ?case by (simp add: shift_def)
next
  case (Cons c cs)
  then show ?case using Cons.IH[of "c # b"] by (simp add: shift_def)
qed

lemma word_at_shift: "q = [] \<or> \<not> is_word (hd q) \<Longrightarrow> word_at (b @ q) = word_at b"
  by (cases b; cases q) (auto simp: word_at_def)

lemma rx_run_shift:
  assumes "q = [] \<or> \<not> is_word (hd q)"
  shows "bol_free r \<Longrightarrow> rx_run ic r (shift q st) = map (shift q) (rx_run ic r st)"
proof (induction r arbitrary: st)
  case (Lit s)
  obtain g b rest where st: "st = (g, b, rest)" by (cases st)
  show ?case by (cases "lit_run ic s b rest") (auto simp: st shift_def lit_run_shift)
next
  case (Cls P)
  obtain g b rest where st: "st = (g, b, rest)" by (cases st)
  show ?case by (cases rest) (auto simp: st shift_def)
next
  case (Seq p1 p2)
  then have a: "rx_run ic p1 (shift q st) = map (shift q) (rx_run ic p1 st)"
    and b: "\<And>st'. rx_run ic p2 (shift q st') = map (shift q) (rx_run ic p2 st')"
    by simp_all
  show ?case by (simp add: a b map_concat comp_def)
next
  case (Alt p1 p2)
  then show ?case by simp
next
  case (Opt p)
  then show ?case by simp
next
  case (Star P)
  obtain g b rest where st: "st = (g, b, rest)" by (cases st)
  show ?case by (simp add: st shift_def star_greedy_shift[unfolded shift_def])
next
  case (LazyStar P)
  obtain g b rest where st: "st = (g, b, rest)" by (cases st)
  show ?case by (simp add: st shift_def star_lazy_shift[unfolded shift_def])
next
  case Bol
  then show ?case by simp
next
  case Eol
  obtain g b rest where st: "st = (g, b, rest)" by (cases st)
  show ?case by (simp add: st shift_def)
next
  case WordB
  obtain g b rest where st: "st = (g, b, rest)" by (cases st)
  show ?case using word_at_shift[OF assms, of b] by (simp add: st shift_def)
next
  case (Group n p)
  obtain g b rest where st: "st = (g, b, rest)" by (cases st)
  have "rx_run ic p (shift q (g, b, rest)) = map (shift q) (rx_run ic p (g, b, rest))"
    using Group by simp
  then have "rx_run ic p (g, b @ q, rest) = map (shift q) (rx_run ic p (g, b, rest))"
    by (simp add: shift_def)
  then show ?case by (simp add: st shift_def comp_def case_prod_beta)
qed

lemma rx_test_prepend:
  assumes "rx_test ic r s" and "bol_free r" and "p = [] \<or> \<not> is_word (last p)"
  shows "rx_test ic r (p @ s)"
proof -
  from assms(1) obtain u v where s: "s = u @ v" and ne: "rx_run ic r ([], rev u, v) \<noteq> []"
    unfolding rx_test_iff by blast
  have q: "rev p = [] \<or> \<not> is_word (hd (rev p))"
    using assms(3) by (auto simp: hd_rev)
  have "rx_run ic r (shift (rev p) ([], rev u, v)) = map (shift (rev p)) (rx_run ic r ([], rev u, v))"
    using q assms(2) by (rule rx_run_shift)
  then have "rx_run ic r ([], rev (p @ u), v) \<noteq> []"
    using ne by (simp add: shift_def)
  moreover have "p @ s = (p @ u) @ v" using s by simp
  ultimately show ?thesis unfolding rx_test_iff by blast
qed

section \<open>Steps applied twice\<close>

lemma rx_test_at_start: "rx_run ic r ([], [], s) \<noteq> [] \<Longrightarrow> rx_test ic r s"
  unfolding rx_test_iff by (rule exI[of _ "[]"]) simp

lemma precision_line_matches:
  "rx_test False rx_precision (''precision mediump float;'' @ [CHR 0x0A] @ s)"
  by (rule rx_test_at_start)
     (simp add: rx_precision_def Plus_def is_space_def canonicalize_def)

lemma ensurePrecision_has_precision: "rx_test False rx_precision (fst (ensurePrecision s))"
  using precision_line_matches[of s] by (simp add: ensurePrecision_def)

lemma ensurePrecision_idem:
  "ensurePrecision (fst (ensurePrecision s)) = (fst (ensurePrecision s), [])"
  using ensurePrecision_has_precision[of s] by (simp add: ensurePrecision_def[of "fst (ensurePrecision s)"])

lemma uniforms_bol_free: "u \<in> set uniforms \<Longrightarrow> bol_free (fst u)"
  by (auto simp: uniforms_def rx_uniform_def Plus_def)

lemma uniforms_decl_matches:
  "u \<in> set uniforms \<Longrightarrow> rx_test False (fst u) (snd u @ [CHR 0x0A] @ s)"
  by (rule rx_test_at_start)
     (auto simp: uniforms_def rx_uniform_def Plus_def is_space_def canonicalize_def
        word_at_def is_word_def is_digit_def is_ident_start_def)

lemma uniforms_decl_last: "u \<in> set uniforms \<Longrightarrow> \<not> is_word (last (snd u @ [CHR 0x0A]))"
  by (simp add: is_word_def is_digit_def is_ident_start_def)

lemma ensureUniform_has:
  "u \<in> set uniforms \<Longrightarrow> rx_test False (fst u) (fst (ensureUniform acc u))"
  using uniforms_decl_matches[of u "fst acc"] by (cases acc) (simp add: ensureUniform_def)

lemma ensureUniform_keeps:
  assumes "rx_test False r (fst acc)" and "bol_free r"
  shows "rx_test False r (fst (ensureUniform acc u))"
proof -
  obtain out n where acc: "acc = (out, n)" by (cases acc)
  have "rx_test False r ((snd u @ [CHR 0x0A]) @ out)"
    using assms acc
    by (intro rx_test_prepend) (simp_all add: is_word_def is_digit_def is_ident_start_def)
  then show ?thesis using assms acc by (simp add: ensureUniform_def)
qed

lemma foldl_ensureUniform_has:
  "set us \<subseteq> set uniforms \<Longrightarrow> u \<in> set us \<Longrightarrow>
     rx_test False (fst u) (fst (foldl ensureUniform acc us))"
proof (induction us arbitrary: u rule: rev_induct)
  case Nil
  then show ?case by simp
next
  case (snoc x xs)
  show ?case
  proof (cases "u = x")
    case True
    then show ?thesis using snoc.prems by (simp add: ensureUniform_has)
  next
    case False
    then have "u \<in> set xs" using snoc.prems by simp
    moreover have "set xs \<subseteq> set uniforms" using snoc.prems by simp
    ultimately have "rx_test False (fst u) (fst (foldl ensureUniform acc xs))"
      by (rule snoc.IH[rotated])
    moreover have "bol_free (fst u)" using snoc.prems by (intro uniforms_bol_free) auto
    ultimately show ?thesis by (simp add: ensureUniform_keeps)
  qed
qed

lemma foldl_ensureUniform_fixed:
  "\<forall>u\<in>set us. rx_test False (fst u) out \<Longrightarrow> foldl ensureUniform (out, n) us = (out, n)"
  by (induction us) (simp_all add: ensureUniform_def)

lemma ensureUniforms_idem:
  "ensureUniforms (fst (ensureUniforms s)) = (fst (ensureUniforms s), [])"
proof -
  obtain out n where f: "foldl ensureUniform (s, 0) uniforms = (out, n)"
    by (cases "foldl ensureUniform (s, 0) uniforms")
  have "\<forall>u\<in>set uniforms. rx_test False (fst u) out"
    using foldl_ensureUniform_has[of uniforms _ "(s, 0)"] f by simp
  then have "foldl ensureUniform (out, 0) uniforms = (out, 0)"
    by (rule foldl_ensureUniform_fixed)
  moreover have "fst (ensureUniforms s) = out" using f by (simp add: ensureUniforms_def)
  ultimately show ?thesis by (simp add: ensureUniforms_def[of out])
qed

lemma ensureMainPresent_idem:
  "ensureMainPresent (fst (ensureMainPresent s)) = (fst (ensureMainPresent s), [])"
  using ensureMainPresent_has_main[of s]
  by (simp add: ensureMainPresent_def[of "fst (ensureMainPresent s)"])

lemma lit_run_False:
  "lit_run False p b r =
     (if take (length p) r = p then Some (rev p @ b, drop (length p) r) else None)"
proof (induction p arbitrary: b r)
  case Nil
  then show ?case by simp
next
  case (Cons x xs)
  show ?case
  proof (cases r)
    case Nil
    then show ?thesis by simp
  next
    case (Cons c cs)
    then show ?thesis using Cons.IH[of "c # b" cs] by (auto simp: canonicalize_def)
  qed
qed

lemma rx_run_Lit_hit:
  "take (length p) r = p \<Longrightarrow>
     rx_run False (Lit p) (g, b, r) = [(g, rev p @ b, drop (length p) r)]"
  by (simp add: lit_run_False)

lemma rx_run_Lit_miss: "take (length p) r \<noteq> p \<Longrightarrow> rx_run False (Lit p) (g, b, r) = []"
  by (simp add: lit_run_False)

lemma rx_scan_Lit_Nil: "p \<noteq> [] \<Longrightarrow> rx_scan False (Lit p) b [] = []"
proof -
  assume "p \<noteq> []"
  then have "take (length p) [] \<noteq> p" by simp
  then have "rx_run False (Lit p) ([], b, []) = []" by (rule rx_run_Lit_miss)
  then show ?thesis by (simp only: rx_scan.simps list.case)
qed

lemma rx_scan_Lit_keep:
  "take (length p) (c # cs) \<noteq> p \<Longrightarrow>
     rx_scan False (Lit p) b (c # cs) = Keep c # rx_scan False (Lit p) (c # b) cs"
proof -
  assume "take (length p) (c # cs) \<noteq> p"
  then have "rx_run False (Lit p) ([], b, c # cs) = []" by (rule rx_run_Lit_miss)
  then show ?thesis by (simp only: rx_scan.simps list.case)
qed

lemma rx_scan_Lit_hit:
  assumes "p \<noteq> []" and "take (length p) (c # cs) = p"
  shows "\<exists>m. rx_scan False (Lit p) b (c # cs) =
           Hit m [] # rx_scan False (Lit p) (rev p @ b) (drop (length p) (c # cs))"
proof -
  have run: "rx_run False (Lit p) ([], b, c # cs) = [([], rev p @ b, drop (length p) (c # cs))]"
    using assms(2) by (rule rx_run_Lit_hit)
  have "0 < length p" using assms(1) by simp
  then have shorter: "length (drop (length p) (c # cs)) < Suc (length cs)" by simp
  show ?thesis
    by (simp only: rx_scan.simps run list.case prod.case shorter if_True) blast
qed

lemma replaceTexture2D_retextureFrom: "replaceTexture2D s = retextureFrom [] s"
  by (simp add: replaceTexture2D_def rx_replace_all_def retextureFrom_def)

lemma retextureFrom_Nil: "retextureFrom b [] = []"
  by (simp add: retextureFrom_def rx_texture2D_def rx_scan_Lit_Nil)

lemma retextureFrom_hit:
  assumes "take (length ''texture2D('') (c # cs) = ''texture2D(''"
  shows "retextureFrom b (c # cs) =
     ''texture('' @ retextureFrom (rev ''texture2D('' @ b) (drop (length ''texture2D('') (c # cs))"
proof -
  obtain m where "rx_scan False (Lit ''texture2D('') b (c # cs) =
      Hit m [] # rx_scan False (Lit ''texture2D('') (rev ''texture2D('' @ b)
                   (drop (length ''texture2D('') (c # cs))"
    using rx_scan_Lit_hit[OF _ assms, of b] by blast
  then show ?thesis
    by (simp only: retextureFrom_def rx_texture2D_def list.map concat.simps piece.case)
qed

lemma retextureFrom_keep:
  assumes "take (length ''texture2D('') (c # cs) \<noteq> ''texture2D(''"
  shows "retextureFrom b (c # cs) = c # retextureFrom (c # b) cs"
  using rx_scan_Lit_keep[OF assms, of b]
  by (simp add: retextureFrom_def rx_texture2D_def)

lemma texture2D_test_iff:
  "rx_test False rx_texture2D t \<longleftrightarrow> (\<exists>u v. t = u @ ''texture2D('' @ v)"
proof
  assume "rx_test False rx_texture2D t"
  then obtain u v where t: "t = u @ v" and ne: "rx_run False rx_texture2D ([], rev u, v) \<noteq> []"
    unfolding rx_test_iff by blast
  have "take (length ''texture2D('') v = ''texture2D(''"
  proof (rule ccontr)
    assume "take (length ''texture2D('') v \<noteq> ''texture2D(''"
    then have "rx_run False (Lit ''texture2D('') ([], rev u, v) = []" by (rule rx_run_Lit_miss)
    with ne show False by (simp add: rx_texture2D_def)
  qed
  then have "v = ''texture2D('' @ drop (length ''texture2D('') v"
    by (metis append_take_drop_id)
  with t show "\<exists>u v. t = u @ ''texture2D('' @ v" by blast
next
  assume "\<exists>u v. t = u @ ''texture2D('' @ v"
  then obtain u v where t: "t = u @ ''texture2D('' @ v" by blast
  have "take (length ''texture2D('') (''texture2D('' @ v) = ''texture2D(''" by simp
  then have "rx_run False (Lit ''texture2D('') ([], rev u, ''texture2D('' @ v) =
      [([], rev ''texture2D('' @ rev u, drop (length ''texture2D('') (''texture2D('' @ v))]"
    by (rule rx_run_Lit_hit)
  then have "rx_run False rx_texture2D ([], rev u, ''texture2D('' @ v) \<noteq> []"
    by (simp add: rx_texture2D_def)
  with t show "rx_test False rx_texture2D t" unfolding rx_test_iff by blast
qed

lemma texture2D_test_Cons:
  "rx_test False rx_texture2D (c # t) \<longleftrightarrow>
     take (length ''texture2D('') (c # t) = ''texture2D('' \<or> rx_test False rx_texture2D t"
proof
  assume "rx_test False rx_texture2D (c # t)"
  then obtain u v where e: "c # t = u @ ''texture2D('' @ v"
    unfolding texture2D_test_iff by blast
  show "take (length ''texture2D('') (c # t) = ''texture2D('' \<or> rx_test False rx_texture2D t"
  proof (cases u)
    case Nil
    with e have "c # t = ''texture2D('' @ v" by simp
    then have "take (length ''texture2D('') (c # t) = ''texture2D(''" by simp
    then show ?thesis by blast
  next
    case (Cons x u')
    with e have "t = u' @ ''texture2D('' @ v" by simp
    then show ?thesis unfolding texture2D_test_iff by blast
  qed
next
  assume a: "take (length ''texture2D('') (c # t) = ''texture2D('' \<or> rx_test False rx_texture2D t"
  show "rx_test False rx_texture2D (c # t)"
  proof (cases "take (length ''texture2D('') (c # t) = ''texture2D(''")
    case True
    then have "c # t = [] @ ''texture2D('' @ drop (length ''texture2D('') (c # t)"
      by (metis append_Nil append_take_drop_id)
    then show ?thesis unfolding texture2D_test_iff by blast
  next
    case False
    with a obtain u v where "t = u @ ''texture2D('' @ v" unfolding texture2D_test_iff by blast
    then have "c # t = (c # u) @ ''texture2D('' @ v" by simp
    then show ?thesis unfolding texture2D_test_iff by blast
  qed
qed

lemma texture2D_test_Nil: "\<not> rx_test False rx_texture2D []"
  by (simp add: texture2D_test_iff)

lemma texture2D_test_replacement:
  "rx_test False rx_texture2D (''texture('' @ t) \<longleftrightarrow> rx_test False rx_texture2D t"
  by (simp add: texture2D_test_Cons)

lemma texture2D_suffix_from_t:
  assumes "''texture2D('' = p @ CHR ''t'' # w" and "p \<noteq> []"
  shows "w = ''ure2D(''"
  using assms by (auto simp: Cons_eq_append_conv)

lemma retextureFrom_prefix:
  "''texture2D('' = p @ w \<Longrightarrow> p \<noteq> [] \<Longrightarrow> take (length w) (retextureFrom b s) = w
     \<Longrightarrow> take (length w) s = w"
proof (induction w arbitrary: p b s)
  case Nil
  then show ?case by simp
next
  case (Cons x w)
  show ?case
  proof (cases s)
    case Nil
    with Cons.prems(3) show ?thesis by (simp add: retextureFrom_Nil)
  next
    case (Cons c cs)
    show ?thesis
    proof (cases "take (length ''texture2D('') (c # cs) = ''texture2D(''")
      case True
      have r: "retextureFrom b s = ''texture('' @
          retextureFrom (rev ''texture2D('' @ b) (drop (length ''texture2D('') (c # cs))"
        unfolding Cons using True by (rule retextureFrom_hit)
      from Cons.prems(3) r have x: "x = CHR ''t''" by simp
      with Cons.prems(1,2) have "w = ''ure2D(''" by (intro texture2D_suffix_from_t) auto
      with Cons.prems(3) r x have False by simp
      then show ?thesis ..
    next
      case False
      have r: "retextureFrom b s = c # retextureFrom (c # b) cs"
        unfolding Cons using False by (rule retextureFrom_keep)
      from Cons.prems(3) r have c: "c = x" and t: "take (length w) (retextureFrom (c # b) cs) = w"
        by auto
      have e: "''texture2D('' = (p @ [x]) @ w" using Cons.prems(1) by simp
      have "take (length w) cs = w"
        by (rule Cons.IH[OF e _ t]) simp
      with c show ?thesis unfolding Cons by simp
    qed
  qed
qed

lemma retextureFrom_clean: "\<not> rx_test False rx_texture2D (retextureFrom b s)"
proof (induction "length s" arbitrary: s b rule: less_induct)
  case less
  show ?case
  proof (cases s)
    case Nil
    then show ?thesis by (simp add: retextureFrom_Nil texture2D_test_Nil)
  next
    case (Cons c cs)
    show ?thesis
    proof (cases "take (length ''texture2D('') (c # cs) = ''texture2D(''")
      case True
      have r: "retextureFrom b s = ''texture('' @
          retextureFrom (rev ''texture2D('' @ b) (drop (length ''texture2D('') (c # cs))"
        unfolding Cons using True by (rule retextureFrom_hit)
      have "length (drop (length ''texture2D('') (c # cs)) < length s"
        unfolding Cons by simp
      then have "\<not> rx_test False rx_texture2D
          (retextureFrom (rev ''texture2D('' @ b) (drop (length ''texture2D('') (c # cs)))"
        by (rule less)
      then show ?thesis unfolding r texture2D_test_replacement .
    next
      case False
      have r: "retextureFrom b s = c # retextureFrom (c # b) cs"
        unfolding Cons using False by (rule retextureFrom_keep)
      have ih: "\<not> rx_test False rx_texture2D (retextureFrom (c # b) cs)"
        by (rule less) (simp add: Cons)
      have "take (length ''texture2D('') (c # retextureFrom (c # b) cs) \<noteq> ''texture2D(''"
      proof
        assume a: "take (length ''texture2D('') (c # retextureFrom (c # b) cs) = ''texture2D(''"
        then have c: "c = CHR ''t''"
          and t: "take (length ''exture2D('') (retextureFrom (c # b) cs) = ''exture2D(''"
          by auto
        have e: "''texture2D('' = ''t'' @ ''exture2D(''" by simp
        have "take (length ''exture2D('') cs = ''exture2D(''"
          by (rule retextureFrom_prefix[OF e _ t]) simp
        with c have "take (length ''texture2D('') (c # cs) = ''texture2D(''" by simp
        with False show False ..
      qed
      with ih show ?thesis unfolding r texture2D_test_Cons by blast
    qed
  qed
qed

lemma modernizeTextureCalls_clean: "\<not> rx_test False rx_texture2D (fst (modernizeTextureCalls s))"
  by (simp add: modernizeTextureCalls_def replaceTexture2D_retextureFrom retextureFrom_clean)

lemma modernizeTextureCalls_idem:
  "modernizeTextureCalls (fst (modernizeTextureCalls s)) = (fst (modernizeTextureCalls s), [])"
  using modernizeTextureCalls_clean[of s]
  by (simp add: modernizeTextureCalls_def[of "fst (modernizeTextureCalls s)"])

lemma first_repair_of_commented_precision:
  "fst (smartFixShader (JStr ''// precision mediump float;'')) =
     Inr (JStr (''uniform float uColorOffset;'' @ [CHR 0x0A] @
                ''uniform float uZoom;'' @ [CHR 0x0A] @
                ''uniform float uRotate;'' @ [CHR 0x0A] @
                ''uniform sampler2D uSampler;'' @ [CHR 0x0A] @
                ''uniform vec2 uResolution;'' @ [CHR 0x0A] @
                ''uniform float uTime;'' @ [CHR 0x0A] @
                ''// max(precision, 0.000001) mediump float;'' @ [CHR 0x0A] @
                ''void main(){ gl_FragColor = vec4(0.0); }''))"
  by code_simp

lemma second_repair_of_commented_precision:
  "smartFixShader
       (JStr (''uniform float uColorOffset;'' @ [CHR 0x0A] @
              ''uniform float uZoom;'' @ [CHR 0x0A] @
              ''uniform float uRotate;'' @ [CHR 0x0A] @
              ''uniform sampler2D uSampler;'' @ [CHR 0x0A] @
              ''uniform vec2 uResolution;'' @ [CHR 0x0A] @
              ''uniform float uTime;'' @ [CHR 0x0A] @
              ''// max(precision, 0.000001) mediump float;'' @ [CHR 0x0A] @
              ''void main(){ gl_FragColor = vec4(0.0); }'')) =
     (Inr (JStr (''precision mediump float;'' @ [CHR 0x0A] @
                 ''uniform float uColorOffset;'' @ [CHR 0x0A] @
                 ''uniform float uZoom;'' @ [CHR 0x0A] @
                 ''uniform float uRotate;'' @ [CHR 0x0A] @
                 ''uniform sampler2D uSampler;'' @ [CHR 0x0A] @
                 ''uniform vec2 uResolution;'' @ [CHR 0x0A] @
                 ''uniform float uTime;'' @ [CHR 0x0A] @
                 ''// max(max, 0.000001)(precision, 0.000001) mediump float;'' @ [CHR 0x0A] @
                 ''void main(){ gl_FragColor = vec4(0.0); }'')),
      [(''OK'', ''Starting smartFixShader pass''),
       (''OK'', ''Inserted precision mediump float;''),
       (''OK'', ''Smart semicolons pass complete''),
       (''OK'', ''Inserted division guards''),
       (''OK'', ''smartFixShader done'')])"
  by code_simp

text \<open>
  C8. The claim expects a second run of \<^verbatim>\<open>smartFixShader\<close> to trigger none of the
  precision, uniform, texture and main steps again. For the source
  \<^verbatim>\<open>// precision mediump float;\<close> the first run finds the precision statement in the
  comment and inserts none, and its division-guard step then rewrites the comment to
  \<^verbatim>\<open>// max(precision, 0.000001) mediump float;\<close>. The second run no longer finds a
  precision statement and inserts one: its output differs from its input.
\<close>

theorem second_repair_inserts_precision:
  "fst (smartFixShader (JStr ''// precision mediump float;'')) =
     Inr (JStr (''uniform float uColorOffset;'' @ [CHR 0x0A] @
                ''uniform float uZoom;'' @ [CHR 0x0A] @
                ''uniform float uRotate;'' @ [CHR 0x0A] @
                ''uniform sampler2D uSampler;'' @ [CHR 0x0A] @
                ''uniform vec2 uResolution;'' @ [CHR 0x0A] @
                ''uniform float uTime;'' @ [CHR 0x0A] @
                ''// max(precision, 0.000001) mediump float;'' @ [CHR 0x0A] @
                ''void main(){ gl_FragColor = vec4(0.0); }''))
   \<and> smartFixShader
       (JStr (''uniform float uColorOffset;'' @ [CHR 0x0A] @
              ''uniform float uZoom;'' @ [CHR 0x0A] @
              ''uniform float uRotate;'' @ [CHR 0x0A] @
              ''uniform sampler2D uSampler;'' @ [CHR 0x0A] @
              ''uniform vec2 uResolution;'' @ [CHR 0x0A] @
              ''uniform float uTime;'' @ [CHR 0x0A] @
              ''// max(precision, 0.000001) mediump float;'' @ [CHR 0x0A] @
              ''void main(){ gl_FragColor = vec4(0.0); }'')) =
     (Inr (JStr (''precision mediump float;'' @ [CHR 0x0A] @
                 ''uniform float uColorOffset;'' @ [CHR 0x0A] @
                 ''uniform float uZoom;'' @ [CHR 0x0A] @
                 ''uniform float uRotate;'' @ [CHR 0x0A] @
                 ''uniform sampler2D uSampler;'' @ [CHR 0x0A] @
                 ''uniform vec2 uResolution;'' @ [CHR 0x0A] @
                 ''uniform float uTime;'' @ [CHR 0x0A] @
                 ''// max(max, 0.000001)(precision, 0.000001) mediump float;'' @ [CHR 0x0A] @
                 ''void main(){ gl_FragColor = vec4(0.0); }'')),
      [(''OK'', ''Starting smartFixShader pass''),
       (''OK'', ''Inserted precision mediump float;''),
       (''OK'', ''Smart semicolons pass complete''),
       (''OK'', ''Inserted division guards''),
       (''OK'', ''smartFixShader done'')])"
  by (rule conjI[OF first_repair_of_commented_precision second_repair_of_commented_precision])

text \<open>
  C8, as amended. Each of the four steps is idempotent on its own: applied to its own
  output it changes nothing and logs nothing. (Between two applications inside
  \<^verbatim>\<open>smartFixShader\<close> the semicolon and division-guard steps run, and they can rewrite
  the text that the pattern of a step had matched.)
\<close>

theorem repair_steps_idempotent:
  "ensurePrecision (fst (ensurePrecision s)) = (fst (ensurePrecision s), [])
   \<and> ensureUniforms (fst (ensureUniforms s)) = (fst (ensureUniforms s), [])
   \<and> modernizeTextureCalls (fst (modernizeTextureCalls s)) = (fst (modernizeTextureCalls s), [])
   \<and> ensureMainPresent (fst (ensureMainPresent s)) = (fst (ensureMainPresent s), [])"
  using ensurePrecision_idem ensureUniforms_idem modernizeTextureCalls_idem ensureMainPresent_idem
  by blast

end
